theory Spec2Isabelle
  imports Main "HOL-Library.Word" "HOL-Library.Sublist"
begin

section \<open>JavaScript strings\<close>

text \<open>
  A JavaScript string is a sequence of UTF-16 code units. The regular expressions of
  \<^verbatim>\<open>generateAdContent\<close> carry no \<^verbatim>\<open>u\<close> flag, so they work on code units too:
  \<^verbatim>\<open>[\s\S]\<close> matches any single code unit, and an emoji is two of them.
\<close>

type_synonym code_unit = "16 word"
type_synonym jsstring = "code_unit list"

definition js :: "string \<Rightarrow> jsstring" where
  \<comment> \<open>the code units of a literal whose characters are all below U+0100\<close>
  "js s = map of_char s"

definition isWhiteSpace :: "code_unit \<Rightarrow> bool" where
  \<comment> \<open>ECMAScript WhiteSpace and LineTerminator, the code units \<^verbatim>\<open>String.prototype.trim\<close> strips\<close>
  "isWhiteSpace c \<longleftrightarrow>
     c \<in> set [0x0009, 0x000A, 0x000B, 0x000C, 0x000D, 0x0020, 0x00A0, 0x1680,
              0x2000, 0x2001, 0x2002, 0x2003, 0x2004, 0x2005, 0x2006, 0x2007,
              0x2008, 0x2009, 0x200A, 0x2028, 0x2029, 0x202F, 0x205F, 0x3000, 0xFEFF]"

definition trim :: "jsstring \<Rightarrow> jsstring" where
  "trim s = rev (dropWhile isWhiteSpace (rev (dropWhile isWhiteSpace s)))"

definition truthy :: "jsstring option \<Rightarrow> bool" where
  \<comment> \<open>\<^verbatim>\<open>undefined\<close>, \<^verbatim>\<open>null\<close> and the empty string are falsy\<close>
  "truthy v = (case v of None \<Rightarrow> False | Some s \<Rightarrow> s \<noteq> [])"

section \<open>The two regular expressions of generateAdContent\<close>

text \<open>
  Both patterns have the shape \<^verbatim>\<open>lit1([\s\S]*)lit2\<close> (the second one with an empty
  \<^verbatim>\<open>lit2\<close>), and \<^verbatim>\<open>String.prototype.match\<close> with a non-global pattern returns the
  leftmost match. The functions below follow the backtracking matcher: the start position
  moves left to right, and at each start the greedy star first takes every remaining code
  unit and gives them back one at a time until the rest of the pattern matches.
  The result is capture group 1, \<^verbatim>\<open>match[1]\<close>, or \<open>None\<close> for \<^verbatim>\<open>null\<close>.
\<close>

fun star_then :: "jsstring \<Rightarrow> jsstring \<Rightarrow> jsstring option" where
  \<comment> \<open>\<^verbatim>\<open>([\s\S]*)lit\<close> anchored at the start of the input: the longer capture is tried first\<close>
  "star_then lit [] = (if prefix lit [] then Some [] else None)"
| "star_then lit (x # xs) =
     (case star_then lit xs of
        Some cap \<Rightarrow> Some (x # cap)
      | None \<Rightarrow> if prefix lit (x # xs) then Some [] else None)"

definition match_here :: "jsstring \<Rightarrow> jsstring \<Rightarrow> jsstring \<Rightarrow> jsstring option" where
  \<comment> \<open>\<^verbatim>\<open>lit1([\s\S]*)lit2\<close> anchored at the start of the input\<close>
  "match_here lit1 lit2 s =
     (if prefix lit1 s then star_then lit2 (drop (length lit1) s) else None)"

fun regex_match :: "jsstring \<Rightarrow> jsstring \<Rightarrow> jsstring \<Rightarrow> jsstring option" where
  \<comment> \<open>\<^verbatim>\<open>s.match(/lit1([\s\S]*)lit2/)\<close>, capture group 1 of the leftmost match\<close>
  "regex_match lit1 lit2 [] = match_here lit1 lit2 []"
| "regex_match lit1 lit2 (x # xs) =
     (case match_here lit1 lit2 (x # xs) of
        Some cap \<Rightarrow> Some cap
      | None \<Rightarrow> regex_match lit1 lit2 xs)"

definition DESCRIPCION :: jsstring where
  "DESCRIPCION = js ''---DESCRIPCION---''"

definition PROMPT :: jsstring where
  "PROMPT = js ''---PROMPT---''"

definition descriptionMatch :: "jsstring \<Rightarrow> jsstring option" where
  \<comment> \<open>\<^verbatim>\<open>responseText.match(/---DESCRIPCION---([\s\S]*)---PROMPT---/)\<close>\<close>
  "descriptionMatch responseText = regex_match DESCRIPCION PROMPT responseText"

definition promptMatch :: "jsstring \<Rightarrow> jsstring option" where
  \<comment> \<open>\<^verbatim>\<open>responseText.match(/---PROMPT---([\s\S]*)/)\<close>\<close>
  "promptMatch responseText = regex_match PROMPT [] responseText"

section \<open>The generative-AI service and the effects of a call\<close>

text \<open>
  A thrown value is an \<^verbatim>\<open>Error\<close> with its message, a \<^verbatim>\<open>TypeError\<close> raised by reading a
  property of \<^verbatim>\<open>undefined\<close> (it carries the name of the property), or a value that is
  not an \<^verbatim>\<open>Error\<close> at all. A fallible call returns \<open>thrown + 'a\<close>.
\<close>

datatype thrown = Error jsstring | TypeError jsstring | NonError

record InlineData =
  data :: jsstring
  mimeType :: jsstring

record Part =
  inlineData :: "InlineData option"
  text_part :: "jsstring option"

datatype Modality = TEXT | IMAGE | AUDIO

record Base64Image =
  base64 :: jsstring
  image_mimeType :: jsstring

record GenerateContentParameters =
  model :: jsstring
  parts :: "Part list"
  responseModalities :: "Modality list option"

record Candidate =
  content_parts :: "Part list"

record GenerateContentResponse =
  response_text :: "jsstring option"
  candidates :: "Candidate list"

record GenerateImagesParameters =
  images_model :: jsstring
  prompt :: jsstring
  numberOfImages :: nat
  outputMimeType :: jsstring
  aspectRatio :: jsstring

text \<open>
  An entry of the answer to an image request may come without its image (a filtered one
  carries a reason instead), and an image without its bytes: the code reads
  \<^verbatim>\<open>generatedImages[0].image.imageBytes\<close>, so both are optional here.
\<close>

record Image =
  imageBytes :: "jsstring option"

record GeneratedImage =
  image_gi :: "Image option"

record GenerateImagesResponse =
  generatedImages :: "GeneratedImage list option"

text \<open>
  The service is outside the repository: it is a parameter, one function per endpoint, and
  the environment's \<^verbatim>\<open>API_KEY\<close> with it.
\<close>

record services =
  API_KEY :: "jsstring option"
  generateContent :: "GenerateContentParameters \<Rightarrow> thrown + GenerateContentResponse"
  generateImages :: "GenerateImagesParameters \<Rightarrow> thrown + GenerateImagesResponse"

datatype request =
  GenerateContent GenerateContentParameters
| GenerateImages GenerateImagesParameters

datatype console_entry =
  Warn jsstring jsstring
| ConsoleError jsstring thrown

record Generation =
  imageUrl :: jsstring
  description :: jsstring

text \<open>
  Local storage holds JSON text. A stored value is modelled by the value the text encodes:
  for the one key the application uses, an array of projects with their generations
  written out.
\<close>

record StoredProject =
  stored_id :: jsstring
  stored_generations :: "Generation list"
  stored_timestamp :: jsstring
  stored_previewImage :: jsstring

text \<open>
  What a call leaves behind: the requests it sent, in order, the console, and the
  contents of local storage.
\<close>

record effects =
  requests :: "request list"
  console :: "console_entry list"
  localStorage :: "jsstring \<rightharpoonup> StoredProject list"

definition getAiClient :: "services \<Rightarrow> thrown + services" where
  "getAiClient svc =
     (if \<not> truthy (API_KEY svc)
      then Inl (Error (js ''API_KEY no est'' @ [0xE1] @ js '' configurada. Aseg'' @ [0xFA]
                 @ js ''rate de que la variable de entorno API_KEY est'' @ [0xE9]
                 @ js '' disponible.''))
      else Inr svc)"

section \<open>generateAdContent\<close>

definition descriptionGeneratorPrompt :: "jsstring \<Rightarrow> jsstring \<Rightarrow> jsstring" where
  "descriptionGeneratorPrompt userPrompt style =
       js ''\<newline>''
     @ js ''    Eres un director de arte y experto en marketing de clase mundial. Tu misi'' @ [0xF3] @ js ''n es redise'' @ [0xF1] @ js ''ar un anuncio a partir de las im'' @ [0xE1] @ js ''genes y el texto proporcionado.\<newline>''
     @ js ''\<newline>''
     @ js ''    **An'' @ [0xE1] @ js ''lisis de Contenido (Reglas estrictas):**\<newline>''
     @ js ''    1.  **PRIORIDAD 1 - TEXTO DEL USUARIO:** Analiza el '' @ [0x22] @ js ''Contexto del usuario'' @ [0x22] @ js ''. Si contiene detalles del producto, informaci'' @ [0xF3] @ js ''n de contacto, precios u ofertas, esa es la fuente principal de texto que DEBES integrar en la nueva imagen.\<newline>''
     @ js ''    2.  **PRIORIDAD 2 - TEXTO EN IMAGEN:** Solo si el '' @ [0x22] @ js ''Contexto del usuario'' @ [0x22] @ js '' est'' @ [0xE1] @ js '' vac'' @ [0xED] @ js ''o o es gen'' @ [0xE9] @ js ''rico (ej. '' @ [0x22] @ js ''hazlo bonito'' @ [0x22] @ js ''), entonces extrae CUALQUIER texto legible de las im'' @ [0xE1] @ js ''genes (nombres, ofertas, etc.).\<newline>''
     @ js ''\<newline>''
     @ js ''    Contexto del usuario: '' @ [0x22]
     @ (if userPrompt \<noteq> [] then userPrompt else js ''Ninguno.'')
     @ [0x22] @ js ''\<newline>''
     @ js ''    Estilo deseado: '' @ [0x22]
     @ style
     @ [0x22] @ js ''\<newline>''
     @ js ''\<newline>''
     @ js ''    **Tu Tarea (sigue este formato EXACTAMENTE):**\<newline>''
     @ js ''    ---TEXTO_A_INTEGRAR---\<newline>''
     @ js ''    [Aqu'' @ [0xED] @ js '' escribe el texto final que usar'' @ [0xE1] @ js ''s en la imagen, basado en las reglas de prioridad de arriba. Si no hay texto de ninguna fuente, escribe '' @ [0x22] @ js ''Ninguno.'' @ [0x22] @ js '']\<newline>''
     @ js ''    ---DESCRIPCION---\<newline>''
     @ js ''    [Aqu'' @ [0xED] @ js '' escribe un texto de marketing corto en espa'' @ [0xF1] @ js ''ol para redes sociales (m'' @ [0xE1] @ js ''ximo 3 frases), usando el estilo deseado, emojis y hashtags. Debe ser coherente con el TEXTO_A_INTEGRAR.]\<newline>''
     @ js ''    ---PROMPT---\<newline>''
     @ js ''    [Aqu'' @ [0xED] @ js '' escribe un prompt detallado en INGL'' @ [0xC9] @ js ''S para un generador de im'' @ [0xE1] @ js ''genes. El prompt debe:\<newline>''
     @ js ''    1. Redise'' @ [0xF1] @ js ''ar la imagen en el estilo deseado (si es '' @ [0x27] @ js ''Autom'' @ [0xE1] @ js ''tico'' @ [0x27] @ js '', elige el mejor estilo visual).\<newline>''
     @ js ''    2. Crear una escena profesional, de alta calidad y fotorealista o de dise'' @ [0xF1] @ js ''o gr'' @ [0xE1] @ js ''fico seg'' @ [0xFA] @ js ''n corresponda.\<newline>''
     @ js ''    3. **CR'' @ [0xCD] @ js ''TICO:** Integrar el texto de '' @ [0x22] @ js ''TEXTO_A_INTEGRAR'' @ [0x22] @ js '' de forma natural, est'' @ [0xE9] @ js ''tica y legible en el dise'' @ [0xF1] @ js ''o de la nueva imagen. Si el texto es '' @ [0x22] @ js ''Ninguno'' @ [0x22] @ js '', no a'' @ [0xF1] @ js ''adas texto.]\<newline>''
     @ js ''  ''"

definition fallbackDescription :: jsstring where
  "fallbackDescription =
     js ''No se pudo generar la descripci'' @ [0xF3] @ js ''n. Int'' @ [0xE9] @ js ''ntalo de nuevo.''"

definition fallbackPrompt :: "jsstring \<Rightarrow> jsstring" where
  "fallbackPrompt style =
     js ''A professional advertisement image based on the user'' @ [0x27]
     @ js ''s provided images and context, in a '' @ style @ js '' style.''"

definition formatWarning :: "jsstring \<Rightarrow> console_entry" where
  "formatWarning responseText =
     Warn (js ''La respuesta de Gemini no sigui'' @ [0xF3] @ js '' el formato esperado:'')
          responseText"

text \<open>
  Lines 51 to 59 of the service: the two matches, the description and the image prompt
  with their fallbacks, and the warning. The result is the pair
  \<open>(description, imageGenerationPrompt)\<close> and the effects with the console updated.
\<close>

definition parseResponseText ::
  "jsstring \<Rightarrow> jsstring \<Rightarrow> effects \<Rightarrow> (jsstring \<times> jsstring) \<times> effects" where
  "parseResponseText style responseText eff =
     (let description = (case descriptionMatch responseText of
                           Some cap \<Rightarrow> trim cap
                         | None \<Rightarrow> fallbackDescription);
          imageGenerationPrompt = (case promptMatch responseText of
                                     Some cap \<Rightarrow> trim cap
                                   | None \<Rightarrow> fallbackPrompt style);
          eff' = (if descriptionMatch responseText = None \<or> promptMatch responseText = None
                  then eff\<lparr>console := console eff @ [formatWarning responseText]\<rparr>
                  else eff)
      in ((description, imageGenerationPrompt), eff'))"

definition interpolate :: "jsstring option \<Rightarrow> jsstring" where
  \<comment> \<open>\<^verbatim>\<open>${v}\<close> in a template literal: \<^verbatim>\<open>undefined\<close> is written out as that word\<close>
  "interpolate v = (case v of Some s \<Rightarrow> s | None \<Rightarrow> js ''undefined'')"

definition imageRequest :: "jsstring \<Rightarrow> GenerateImagesParameters" where
  "imageRequest imageGenerationPrompt =
     \<lparr>images_model = js ''imagen-4.0-generate-001'',
      prompt = imageGenerationPrompt,
      numberOfImages = 1,
      outputMimeType = js ''image/jpeg'',
      aspectRatio = js ''1:1''\<rparr>"

definition contentRequest ::
  "Base64Image list \<Rightarrow> jsstring \<Rightarrow> jsstring \<Rightarrow> GenerateContentParameters" where
  "contentRequest images userPrompt style =
     (let contentParts =
            map (\<lambda>img. \<lparr>inlineData = Some \<lparr>data = base64 img, mimeType = image_mimeType img\<rparr>,
                         text_part = None\<rparr>) images
            @ [\<lparr>inlineData = None,
                text_part = Some (descriptionGeneratorPrompt userPrompt style)\<rparr>]
      in \<lparr>model = js ''gemini-2.5-flash'', parts = contentParts, responseModalities = None\<rparr>)"

definition generateAdContent ::
  "services \<Rightarrow> Base64Image list \<Rightarrow> jsstring \<Rightarrow> jsstring \<Rightarrow> effects
     \<Rightarrow> (thrown + Generation) \<times> effects" where
  "generateAdContent svc images userPrompt style eff =
     (case getAiClient svc of
        Inl e \<Rightarrow> (Inl e, eff)
      | Inr ai \<Rightarrow>
          let req1 = contentRequest images userPrompt style;
              eff1 = eff\<lparr>requests := requests eff @ [GenerateContent req1]\<rparr>
          in (case generateContent ai req1 of
                Inl e \<Rightarrow> (Inl e, eff1)
              | Inr descriptionResponse \<Rightarrow>
                  (case response_text descriptionResponse of
                     None \<Rightarrow> (Inl (TypeError (js ''match'')), eff1)
                   | Some responseText \<Rightarrow>
                       let ((description, imageGenerationPrompt), eff2) =
                             parseResponseText style responseText eff1;
                           req2 = imageRequest imageGenerationPrompt;
                           eff3 = eff2\<lparr>requests := requests eff2 @ [GenerateImages req2]\<rparr>
                       in (case generateImages ai req2 of
                             Inl e \<Rightarrow> (Inl e, eff3)
                           | Inr imageResponse \<Rightarrow>
                               (case generatedImages imageResponse of
                                  Some (first # _) \<Rightarrow>
                                    (case image_gi first of
                                       None \<Rightarrow> (Inl (TypeError (js ''imageBytes'')), eff3)
                                     | Some img \<Rightarrow>
                                         (Inr \<lparr>imageUrl = js ''data:image/jpeg;base64,''
                                                          @ interpolate (imageBytes img),
                                               description = description\<rparr>, eff3))
                                | _ \<Rightarrow>
                                    (Inl (Error (js ''No se pudo generar la imagen publicitaria.'')),
                                     eff3))))))"

section \<open>editAdImage\<close>

fun first_inline :: "Part list \<Rightarrow> thrown + jsstring" where
  \<comment> \<open>the \<^verbatim>\<open>for ... of\<close> loop over the parts and the \<^verbatim>\<open>throw\<close> after it\<close>
  "first_inline [] = Inl (Error (js ''No se pudo editar la imagen.''))"
| "first_inline (part # rest) =
     (case inlineData part of
        Some d \<Rightarrow> Inr (js ''data:'' @ mimeType d @ js '';base64,'' @ data d)
      | None \<Rightarrow> first_inline rest)"

definition editRequest :: "jsstring \<Rightarrow> jsstring \<Rightarrow> jsstring \<Rightarrow> GenerateContentParameters" where
  "editRequest base64Image mime editPrompt =
     \<lparr>model = js ''gemini-2.5-flash-image'',
      parts = [\<lparr>inlineData = Some \<lparr>data = base64Image, mimeType = mime\<rparr>, text_part = None\<rparr>,
               \<lparr>inlineData = None,
                text_part = Some (js ''En espa'' @ [0xF1] @ js ''ol: '' @ editPrompt)\<rparr>],
      responseModalities = Some [IMAGE]\<rparr>"

definition editAdImage ::
  "services \<Rightarrow> jsstring \<Rightarrow> jsstring \<Rightarrow> jsstring \<Rightarrow> effects \<Rightarrow> (thrown + jsstring) \<times> effects" where
  "editAdImage svc base64Image mime editPrompt eff =
     (case getAiClient svc of
        Inl e \<Rightarrow> (Inl e, eff)
      | Inr ai \<Rightarrow>
          let req = editRequest base64Image mime editPrompt;
              eff1 = eff\<lparr>requests := requests eff @ [GenerateContent req]\<rparr>
          in (case generateContent ai req of
                Inl e \<Rightarrow> (Inl e, eff1)
              | Inr response \<Rightarrow>
                  (case candidates response of
                     [] \<Rightarrow> (Inl (TypeError (js ''content'')), eff1)
                   | candidate # _ \<Rightarrow> (first_inline (content_parts candidate), eff1))))"

section \<open>The application state\<close>

text \<open>
  \<^verbatim>\<open>handleEdit\<close> assigns to a field of a \<^verbatim>\<open>Generation\<close> object that the state array, the
  copied array and the saved projects all point to, so generations live in a store and the
  arrays hold references. The arrays themselves are never updated in place (every change
  builds a new array), so they are lists of references.
\<close>

datatype AppStep = upload | processing | result | editing

type_synonym ref = nat

record SavedProject =
  id_sp :: jsstring
  generations_sp :: "ref list"
  timestamp :: jsstring
  previewImage :: jsstring

record Blob =
  blob_bytes :: "8 word list"
  blob_type :: jsstring

record File =
  file_bytes :: "8 word list"
  file_name :: jsstring
  file_type :: jsstring

record App =
  step :: AppStep
  error :: jsstring
  inputFiles :: "File list"
  inputImagePreviews :: "jsstring list"
  initialPrompt :: jsstring
  selectedStyle :: jsstring
  generations :: "ref list"
  editPrompt :: jsstring
  currentProjectId :: "jsstring option"
  savedProjects :: "SavedProject list"
  isHistoryOpen :: bool
  store :: "ref \<Rightarrow> Generation"
  next_ref :: ref
  outside :: effects

text \<open>
  The browser is a parameter: the clock (in the two formats the code asks for), whether
  \<^verbatim>\<open>localStorage.setItem\<close> throws (a full quota), what \<^verbatim>\<open>fetch\<close> and \<^verbatim>\<open>blob()\<close> give for
  a URL, the message the engine puts in a \<^verbatim>\<open>TypeError\<close>, and, when several conversions of
  one \<^verbatim>\<open>Promise.all\<close> reject, which of them rejects first in time. \<^verbatim>\<open>fileToBase64\<close> is
  imported from \<^verbatim>\<open>./utils/fileUtils\<close>; it is a parameter as well.
\<close>

record browser =
  toLocaleString :: jsstring
  toISOString :: jsstring
  setItem_throws :: "jsstring \<Rightarrow> StoredProject list \<Rightarrow> thrown option"
  fetch_blob :: "jsstring \<Rightarrow> thrown + Blob"
  fileToBase64 :: "File \<Rightarrow> thrown + Base64Image"
  rejects_first :: "File list \<Rightarrow> nat"
  typeErrorMessage :: "jsstring \<Rightarrow> jsstring"

definition stringify :: "(ref \<Rightarrow> Generation) \<Rightarrow> SavedProject list \<Rightarrow> StoredProject list" where
  \<comment> \<open>\<^verbatim>\<open>JSON.stringify\<close> reads every generation through the store at the time of the call\<close>
  "stringify h projects =
     map (\<lambda>p. \<lparr>stored_id = id_sp p,
                stored_generations = map h (generations_sp p),
                stored_timestamp = timestamp p,
                stored_previewImage = previewImage p\<rparr>) projects"

definition setItem ::
  "browser \<Rightarrow> jsstring \<Rightarrow> StoredProject list \<Rightarrow> effects \<Rightarrow> thrown option \<times> effects" where
  "setItem br key v eff =
     (case setItem_throws br key v of
        Some e \<Rightarrow> (Some e, eff)
      | None \<Rightarrow> (None, eff\<lparr>localStorage := (localStorage eff)(key \<mapsto> v)\<rparr>))"

definition errorMessage :: "browser \<Rightarrow> thrown \<Rightarrow> jsstring" where
  \<comment> \<open>\<^verbatim>\<open>err instanceof Error ? err.message\<close> or else the fixed text\<close>
  "errorMessage br err =
     (case err of
        Error m \<Rightarrow> m
      | TypeError p \<Rightarrow> typeErrorMessage br p
      | NonError \<Rightarrow> js ''Ocurri'' @ [0xF3] @ js '' un error desconocido.'')"

section \<open>saveCurrentProject and handleDeleteProject\<close>

text \<open>
  \<^verbatim>\<open>saveCurrentProject\<close> is a \<^verbatim>\<open>useCallback\<close> over \<^verbatim>\<open>[currentProjectId, savedProjects]\<close>: it
  reads the two values of the render that created it, not the latest state. They are its
  first two arguments after the browser.
\<close>

definition saveCurrentProject ::
  "browser \<Rightarrow> jsstring option \<Rightarrow> SavedProject list \<Rightarrow> ref list \<Rightarrow> App \<Rightarrow> App" where
  "saveCurrentProject br currentProjectId' savedProjects' updatedGenerations app =
     (if length updatedGenerations = 0 \<or> \<not> truthy currentProjectId' then app
      else case currentProjectId' of
        None \<Rightarrow> app
      | Some pid \<Rightarrow>
          let updatedProjects = filter (\<lambda>p. id_sp p \<noteq> pid) savedProjects';
              newProject = \<lparr>id_sp = pid,
                            generations_sp = updatedGenerations,
                            timestamp = toLocaleString br,
                            previewImage = imageUrl (store app (updatedGenerations ! 0))\<rparr>;
              finalProjects = newProject # updatedProjects;
              app1 = app\<lparr>savedProjects := finalProjects\<rparr>
          in (case setItem br (js ''savedProjects'') (stringify (store app1) finalProjects)
                     (outside app1) of
                (None, eff) \<Rightarrow> app1\<lparr>outside := eff\<rparr>
              | (Some e, eff) \<Rightarrow>
                  app1\<lparr>outside := eff\<lparr>console := console eff @
                    [ConsoleError (js ''No se pudo guardar el proyecto autom'' @ [0xE1]
                                   @ js ''ticamente:'') e]\<rparr>\<rparr>))"

definition handleDeleteProject :: "browser \<Rightarrow> jsstring \<Rightarrow> App \<Rightarrow> App" where
  "handleDeleteProject br projectId app =
     (let updatedProjects = filter (\<lambda>p. id_sp p \<noteq> projectId) (savedProjects app);
          app1 = app\<lparr>savedProjects := updatedProjects\<rparr>
      in (case setItem br (js ''savedProjects'') (stringify (store app1) updatedProjects)
                 (outside app1) of
            (None, eff) \<Rightarrow> app1\<lparr>outside := eff\<rparr>
          | (Some e, eff) \<Rightarrow>
              app1\<lparr>outside := eff\<lparr>console := console eff @
                [ConsoleError (js ''No se pudo eliminar el proyecto:'') e]\<rparr>\<rparr>))"

section \<open>handleEdit\<close>

definition editedImage ::
  "browser \<Rightarrow> services \<Rightarrow> jsstring \<Rightarrow> jsstring \<Rightarrow> effects \<Rightarrow> (thrown + jsstring) \<times> effects" where
  \<comment> \<open>the four awaited calls of the \<^verbatim>\<open>try\<close> block, up to \<^verbatim>\<open>newImageUrl\<close>\<close>
  "editedImage br svc url editPrompt' eff =
     (case fetch_blob br url of
        Inl e \<Rightarrow> (Inl e, eff)
      | Inr blob \<Rightarrow>
          let file = \<lparr>file_bytes = blob_bytes blob, file_name = js ''temp_image'',
                      file_type = blob_type blob\<rparr>
          in (case fileToBase64 br file of
                Inl e \<Rightarrow> (Inl e, eff)
              | Inr img \<Rightarrow> editAdImage svc (base64 img) (image_mimeType img) editPrompt' eff))"

text \<open>
  The handler runs on the values of one render. Here \<open>app\<close> is both that render and the
  state the handler updates: no other handler runs while this one awaits.
\<close>

definition handleEdit :: "browser \<Rightarrow> services \<Rightarrow> App \<Rightarrow> App" where
  "handleEdit br svc app =
     (if editPrompt app = [] \<or> length (generations app) = 0 then app
      else
        let lastGeneration = generations app ! (length (generations app) - 1);
            app1 = app\<lparr>step := editing, error := []\<rparr>
        in (case editedImage br svc (imageUrl (store app1 lastGeneration)) (editPrompt app)
                   (outside app1) of
              (Inr newImageUrl, eff) \<Rightarrow>
                let updatedGenerations = generations app;
                    target = updatedGenerations ! (length updatedGenerations - 1);
                    app2 = app1\<lparr>outside := eff,
                                store := (store app1)
                                  (target := (store app1 target)\<lparr>imageUrl := newImageUrl\<rparr>)\<rparr>;
                    app3 = app2\<lparr>generations := updatedGenerations\<rparr>;
                    app4 = saveCurrentProject br (currentProjectId app) (savedProjects app)
                             updatedGenerations app3
                in app4\<lparr>editPrompt := [], step := result\<rparr>
            | (Inl err, eff) \<Rightarrow>
                app1\<lparr>outside := eff,
                     error := js ''Error al editar imagen: '' @ errorMessage br err,
                     step := result\<rparr>))"

section \<open>handleGenerate, handleGenerateAnother and handleReset\<close>

text \<open>
  These handlers build the generation list that \<^verbatim>\<open>handleEdit\<close> works on. Each handler reads
  the values of the render it was created in (\<open>render\<close> below, and the first two arguments of
  \<^verbatim>\<open>saveCurrentProject\<close>), whatever it has set in the meantime. Every result of
  \<^verbatim>\<open>generateAdContent\<close> is a new object, so it gets a fresh reference.
\<close>

definition all_fileToBase64 :: "browser \<Rightarrow> File list \<Rightarrow> thrown + Base64Image list" where
  \<comment> \<open>\<^verbatim>\<open>Promise.all(inputFiles.map(fileToBase64))\<close>: every conversion is started; the values in
      list order if all fulfil, else the reason of the one that rejects first in time\<close>
  "all_fileToBase64 br files =
     (let settled = map (fileToBase64 br) files;
          reasons = concat (map (\<lambda>r. case r of Inl e \<Rightarrow> [e] | Inr _ \<Rightarrow> []) settled);
          values = concat (map (\<lambda>r. case r of Inl _ \<Rightarrow> [] | Inr img \<Rightarrow> [img]) settled)
      in if reasons = [] then Inr values
         else Inl (reasons ! (rejects_first br files mod length reasons)))"

definition callGenerateAPI :: "browser \<Rightarrow> services \<Rightarrow> App \<Rightarrow> App \<Rightarrow> ref option \<times> App" where
  "callGenerateAPI br svc render app =
     (let app1 = app\<lparr>error := []\<rparr>
      in (case all_fileToBase64 br (inputFiles render) of
            Inl err \<Rightarrow>
              (None, app1\<lparr>error := js ''Error al generar contenido: '' @ errorMessage br err,
                          step := upload\<rparr>)
          | Inr base64Images \<Rightarrow>
              (case generateAdContent svc base64Images (initialPrompt render)
                      (selectedStyle render) (outside app1) of
                 (Inl err, eff) \<Rightarrow>
                   (None, app1\<lparr>outside := eff,
                               error := js ''Error al generar contenido: '' @ errorMessage br err,
                               step := upload\<rparr>)
               | (Inr generation, eff) \<Rightarrow>
                   (Some (next_ref app1),
                    app1\<lparr>outside := eff,
                         store := (store app1)(next_ref app1 := generation),
                         next_ref := next_ref app1 + 1\<rparr>))))"

definition handleGenerate :: "browser \<Rightarrow> services \<Rightarrow> App \<Rightarrow> App" where
  "handleGenerate br svc app =
     (if length (inputFiles app) = 0
      then app\<lparr>error := js ''Por favor, sube al menos una imagen.''\<rparr>
      else
        let app1 = app\<lparr>step := processing\<rparr>;
            newId = toISOString br;
            app2 = app1\<lparr>currentProjectId := Some newId\<rparr>
        in (case callGenerateAPI br svc app app2 of
              (Some r, app3) \<Rightarrow>
                let newGenerations = [r];
                    app4 = app3\<lparr>generations := newGenerations\<rparr>;
                    app5 = saveCurrentProject br (currentProjectId app) (savedProjects app)
                             newGenerations app4
                in app5\<lparr>step := result\<rparr>
            | (None, app3) \<Rightarrow> app3\<lparr>currentProjectId := None\<rparr>))"

definition handleGenerateAnother :: "browser \<Rightarrow> services \<Rightarrow> App \<Rightarrow> App" where
  "handleGenerateAnother br svc app =
     (let app1 = app\<lparr>step := processing\<rparr>
      in (case callGenerateAPI br svc app app1 of
            (Some r, app2) \<Rightarrow>
              let updatedGenerations = generations app @ [r];
                  app3 = app2\<lparr>generations := updatedGenerations\<rparr>;
                  app4 = saveCurrentProject br (currentProjectId app) (savedProjects app)
                           updatedGenerations app3
              in app4\<lparr>step := result\<rparr>
          | (None, app2) \<Rightarrow> app2))"

definition handleReset :: "App \<Rightarrow> App" where
  "handleReset app =
     app\<lparr>inputFiles := [], inputImagePreviews := [], initialPrompt := [],
          selectedStyle := js ''Autom'' @ [0xE1] @ js ''tico'',
          generations := [], editPrompt := [], error := [],
          currentProjectId := None, step := upload\<rparr>"

text \<open>
  The states the handlers can produce, starting from any state without generations (as
  after mounting); the setters of the input fields (files, previews, prompts, style, history
  panel) are taken together in the last rule.
\<close>

inductive reachable :: "App \<Rightarrow> bool" where
  start: "generations app = [] \<Longrightarrow> reachable app"
| generate: "reachable app \<Longrightarrow> reachable (handleGenerate br svc app)"
| another: "reachable app \<Longrightarrow> reachable (handleGenerateAnother br svc app)"
| edit: "reachable app \<Longrightarrow> reachable (handleEdit br svc app)"
| delete: "reachable app \<Longrightarrow> reachable (handleDeleteProject br projectId app)"
| reset: "reachable app \<Longrightarrow> reachable (handleReset app)"
| input: "reachable app \<Longrightarrow>
            reachable (app\<lparr>inputFiles := files, inputImagePreviews := previews,
                            initialPrompt := p, selectedStyle := s, editPrompt := e,
                            isHistoryOpen := h\<rparr>)"

text \<open>References in use are below \<open>next_ref\<close>, and the generation list holds none twice.\<close>

definition fresh_refs :: "App \<Rightarrow> bool" where
  "fresh_refs app \<longleftrightarrow> distinct (generations app) \<and> (\<forall>r \<in> set (generations app). r < next_ref app)"

text \<open>
  A run of saves, each made from a render that sees the list the save before it left
  behind: the project identifier and the generation list of every save, oldest first.
\<close>

fun saves :: "browser \<Rightarrow> (jsstring \<times> ref list) list \<Rightarrow> App \<Rightarrow> App" where
  "saves br [] app = app"
| "saves br ((pid, gs) # rest) app =
     saves br rest (saveCurrentProject br (Some pid) (savedProjects app) gs app)"

section \<open>Example values\<close>

text \<open>Concrete inputs on which the theorems below are instantiated.\<close>

definition no_effects :: effects where
  "no_effects = \<lparr>requests = [], console = [], localStorage = Map.empty\<rparr>"

definition canned_services :: "jsstring option \<Rightarrow> Candidate list \<Rightarrow> GeneratedImage list option \<Rightarrow> services" where
  "canned_services t cs imgs =
     \<lparr>API_KEY = Some (js ''key''),
      generateContent = (\<lambda>_. Inr \<lparr>response_text = t, candidates = cs\<rparr>),
      generateImages = (\<lambda>_. Inr \<lparr>generatedImages = imgs\<rparr>)\<rparr>"

definition with_bytes :: "jsstring \<Rightarrow> GeneratedImage" where
  "with_bytes b = \<lparr>image_gi = Some \<lparr>imageBytes = Some b\<rparr>\<rparr>"

definition sale_response :: jsstring where
  "sale_response =
     js ''---TEXTO_A_INTEGRAR---\<newline>Foo\<newline>---DESCRIPCION---\<newline>Great sale! ''
     @ [0xD83C, 0xDF89] @ js ''\<newline>---PROMPT---\<newline>A photo of a sale banner''"

definition failing_services :: services where
  "failing_services =
     \<lparr>API_KEY = Some (js ''key''),
      generateContent = (\<lambda>_. Inl (Error (js ''503 Service Unavailable''))),
      generateImages = (\<lambda>_. Inl (Error (js ''503 Service Unavailable'')))\<rparr>"

definition demo_browser :: browser where
  "demo_browser =
     \<lparr>toLocaleString = js ''3/11/2026, 10:15:00'',
      toISOString = js ''2026-11-03T09:15:00.000Z'',
      setItem_throws = (\<lambda>_ _. None),
      fetch_blob = (\<lambda>_. Inr \<lparr>blob_bytes = [0x41, 0x42, 0x43], blob_type = js ''image/jpeg''\<rparr>),
      fileToBase64 = (\<lambda>f. Inr \<lparr>base64 = js ''QUJD'', image_mimeType = file_type f\<rparr>),
      rejects_first = (\<lambda>_. 0),
      typeErrorMessage = (\<lambda>p. js ''Cannot read properties of undefined'')\<rparr>"

definition demo_project :: "jsstring \<Rightarrow> ref list \<Rightarrow> SavedProject" where
  "demo_project pid gs =
     \<lparr>id_sp = pid, generations_sp = gs, timestamp = js ''2/11/2026, 18:00:00'',
      previewImage = js ''data:image/jpeg;base64,AAAA''\<rparr>"

definition demo_app :: App where
  "demo_app =
     \<lparr>step = result, error = [], inputFiles = [], inputImagePreviews = [],
      initialPrompt = [], selectedStyle = js ''Fresco y Natural'',
      generations = [0, 1],
      editPrompt = js ''hazlo azul'',
      currentProjectId = Some (js ''p2''),
      savedProjects = [demo_project (js ''p1'') [2], demo_project (js ''p2'') [0, 1],
                       demo_project (js ''p3'') [3]],
      isHistoryOpen = False,
      store = (\<lambda>r. \<lparr>imageUrl = js ''data:image/jpeg;base64,AAAA'',
                       description = (if r = 1 then js ''Dos'' else js ''Uno'')\<rparr>),
      next_ref = 4,
      outside = no_effects\<rparr>"

definition edited_services :: services where
  "edited_services =
     canned_services None
       [\<lparr>content_parts =
           [\<lparr>inlineData = None, text_part = Some (js ''Listo'')\<rparr>,
            \<lparr>inlineData = Some \<lparr>data = js ''WFla'', mimeType = js ''image/png''\<rparr>,
             text_part = None\<rparr>]\<rparr>]
       None"
section \<open>Properties of the two patterns\<close>

text \<open>
  The greedy star followed by a literal fails exactly when the literal does not occur in
  the rest of the input, and otherwise captures everything up to the last occurrence.
\<close>

lemma star_then_None_iff: "star_then lit s = None \<longleftrightarrow> \<not> sublist lit s"
  by (induction s) (auto simp: sublist_Cons_right split: option.splits)

lemma star_then_Nil: "star_then [] s = Some s"
  by (induction s) auto

lemma star_then_last:
  assumes "lit \<noteq> []" and "\<not> sublist lit (tl lit @ c)"
  shows "star_then lit (b @ lit @ c) = Some b"
proof (induction b)
  case Nil
  from assms(1) obtain x xs where lit: "lit = x # xs" by (cases lit) auto
  with assms(2) have "star_then lit (xs @ c) = None" by (simp add: star_then_None_iff)
  then show ?case by (simp add: lit)
next
  case (Cons y b)
  then show ?case by simp
qed

lemma regex_match_unfold:
  "regex_match l1 l2 s =
     (case match_here l1 l2 s of Some cap \<Rightarrow> Some cap
      | None \<Rightarrow> (case s of [] \<Rightarrow> None | x # xs \<Rightarrow> regex_match l1 l2 xs))"
  by (cases s) (auto split: option.splits)

lemma prefix_before_first:
  assumes "a \<noteq> []" and "prefix lit (a @ lit @ r)"
  shows "sublist lit (a @ butlast lit)"
proof (cases "lit = []")
  case True then show ?thesis by simp
next
  case False
  then have lit: "lit = butlast lit @ [last lit]" by simp
  have len: "length lit \<le> length (a @ butlast lit)" using assms(1) by (cases a) auto
  have "a @ lit @ r = (a @ butlast lit) @ ([last lit] @ r)" using lit by (metis append.assoc)
  with assms(2) have "prefix lit ((a @ butlast lit) @ ([last lit] @ r))" by simp
  with len have "prefix lit (a @ butlast lit)"
    by (metis prefix_length_prefix prefix_append prefixI prefix_order.dual_order.refl)
  then show ?thesis by (rule prefix_imp_sublist)
qed

text \<open>
  The leftmost match starts at the first occurrence of the first literal, provided the rest
  of the pattern matches there.
\<close>

lemma regex_match_first:
  assumes "lit1 \<noteq> []" and "\<not> sublist lit1 (a @ butlast lit1)"
    and "star_then lit2 r = Some cap"
  shows "regex_match lit1 lit2 (a @ lit1 @ r) = Some cap"
  using assms(2)
proof (induction a)
  case Nil
  show ?case using assms(3) by (subst regex_match_unfold) (simp add: match_here_def)
next
  case (Cons y a)
  have "\<not> prefix lit1 ((y # a) @ lit1 @ r)"
    using prefix_before_first[of "y # a" lit1 r] Cons.prems by blast
  moreover have "\<not> sublist lit1 (a @ butlast lit1)"
    using Cons.prems by (simp add: sublist_Cons_right)
  ultimately show ?case using Cons.IH by (simp add: match_here_def)
qed

lemma regex_match_None_iff:
  "regex_match l1 l2 s = None \<longleftrightarrow> (\<forall>a r. s = a @ l1 @ r \<longrightarrow> star_then l2 r = None)"
proof -
  have here: "\<And>s. match_here l1 l2 s = None \<longleftrightarrow> (\<forall>r. s = l1 @ r \<longrightarrow> star_then l2 r = None)"
    by (auto simp: match_here_def prefix_def)
  show ?thesis
  proof (induction s)
    case Nil
    then show ?case by (simp add: here)
  next
    case (Cons x xs)
    have A: "regex_match l1 l2 (x # xs) = None \<longleftrightarrow>
               match_here l1 l2 (x # xs) = None \<and> regex_match l1 l2 xs = None"
      by (simp split: option.splits)
    have B: "(\<forall>a r. x # xs = a @ l1 @ r \<longrightarrow> star_then l2 r = None) \<longleftrightarrow>
             (\<forall>r. x # xs = l1 @ r \<longrightarrow> star_then l2 r = None) \<and>
             (\<forall>a r. xs = a @ l1 @ r \<longrightarrow> star_then l2 r = None)"
      (is "?L \<longleftrightarrow> ?R1 \<and> ?R2")
    proof (intro iffI conjI allI impI)
      fix r assume ?L and "x # xs = l1 @ r"
      then show "star_then l2 r = None" by (metis append_Nil)
    next
      fix a r assume ?L and "xs = a @ l1 @ r"
      then have "x # xs = (x # a) @ l1 @ r" by simp
      with \<open>?L\<close> show "star_then l2 r = None" by blast
    next
      fix a r assume R: "?R1 \<and> ?R2" and eq: "x # xs = a @ l1 @ r"
      show "star_then l2 r = None"
      proof (cases a)
        case Nil
        with R eq show ?thesis by simp
      next
        case (Cons y a')
        with eq have "xs = a' @ l1 @ r" by simp
        with R show ?thesis by blast
      qed
    qed
    show ?case by (simp only: A B here Cons.IH)
  qed
qed

text \<open>
  When the two patterns of the service fail: the prompt pattern when the response has no
  \<^verbatim>\<open>---PROMPT---\<close>, the description pattern when no \<^verbatim>\<open>---DESCRIPCION---\<close> is followed by a
  \<^verbatim>\<open>---PROMPT---\<close>.
\<close>

lemma promptMatch_None_iff: "promptMatch t = None \<longleftrightarrow> \<not> sublist PROMPT t"
  by (simp add: promptMatch_def regex_match_None_iff star_then_Nil sublist_def)

lemma descriptionMatch_None_iff:
  "descriptionMatch t = None \<longleftrightarrow> \<not> (\<exists>a b c. t = a @ DESCRIPCION @ b @ PROMPT @ c)"
  by (simp add: descriptionMatch_def regex_match_None_iff star_then_None_iff sublist_def) blast

text \<open>
  Occurrences of a non-empty literal: where it occurs there is a first and a last
  occurrence, stated as in the theorems below.
\<close>

lemma ex_first_occurrence:
  assumes "l \<noteq> []"
  shows "t = x @ l @ y \<Longrightarrow>
         \<exists>a r. t = a @ l @ r \<and> \<not> sublist l (a @ butlast l) \<and> length a \<le> length x"
proof (induction "length x" arbitrary: x y rule: less_induct)
  case less
  show ?case
  proof (cases "sublist l (x @ butlast l)")
    case False
    with less.prems show ?thesis by blast
  next
    case True
    then obtain p s where ps: "x @ butlast l = p @ l @ s" by (auto simp: sublist_def)
    have l: "butlast l @ [last l] = l" using assms by simp
    have "length (x @ butlast l) = length (p @ l @ s)" using ps by simp
    then have "length x + (length l - 1) = length p + length l + length s" by simp
    moreover have "0 < length l" using assms by simp
    ultimately have len: "length p < length x" by arith
    have "t = (x @ butlast l) @ [last l] @ y" using less.prems l by (metis append.assoc)
    then have "t = p @ l @ (s @ [last l] @ y)" using ps by simp
    from less.hyps[OF len this]
    obtain a r where "t = a @ l @ r" "\<not> sublist l (a @ butlast l)" "length a \<le> length p"
      by blast
    with len show ?thesis by (intro exI[of _ a] exI[of _ r]) simp
  qed
qed

lemma ex_last_occurrence:
  assumes "l \<noteq> []"
  shows "t = x @ l @ y \<Longrightarrow> \<exists>b c. t = b @ l @ c \<and> \<not> sublist l (tl l @ c)"
proof (induction "length y" arbitrary: x y rule: less_induct)
  case less
  show ?case
  proof (cases "sublist l (tl l @ y)")
    case False
    with less.prems show ?thesis by blast
  next
    case True
    then obtain p s where ps: "tl l @ y = p @ l @ s" by (auto simp: sublist_def)
    have l: "hd l # tl l = l" using assms by simp
    have "length (tl l @ y) = length (p @ l @ s)" using ps by simp
    then have "(length l - 1) + length y = length p + length l + length s" by simp
    moreover have "0 < length l" using assms by simp
    ultimately have len: "length s < length y" by arith
    have "t = x @ [hd l] @ (tl l @ y)" using less.prems l by (metis append_Cons append_Nil)
    then have "t = (x @ [hd l] @ p) @ l @ s" using ps by simp
    from less.hyps[OF len this] show ?thesis .
  qed
qed

lemma longer_prefix_rest:
  assumes "p @ r = q @ w" and "length p \<le> length q"
  obtains u where "r = u @ w"
proof -
  from assms(1) consider us where "p = q @ us" "us @ r = w" | us where "p @ us = q" "r = us @ w"
    by (auto simp: append_eq_append_conv2)
  then show ?thesis
  proof cases
    case 1
    with assms(2) have "us = []" by simp
    with 1 have "r = [] @ w" by simp
    then show ?thesis by (rule that)
  next
    case 2
    then show ?thesis by (intro that)
  qed
qed

section \<open>The parsing step of generateAdContent\<close>

text \<open>
  Claim C1, as the code has it. Let the response text contain \<^verbatim>\<open>---DESCRIPCION---\<close> and,
  after it, \<^verbatim>\<open>---PROMPT---\<close>. The description is the text between the first
  \<^verbatim>\<open>---DESCRIPCION---\<close> and the last \<^verbatim>\<open>---PROMPT---\<close>, trimmed; the image prompt is the
  text after the first \<^verbatim>\<open>---PROMPT---\<close>, trimmed; no warning is recorded. When
  \<^verbatim>\<open>---PROMPT---\<close> occurs once, the two positions coincide and these are the two sections
  of the response. "First" and "last" are stated by the absence of an earlier or a later
  occurrence.
\<close>

theorem parse_sections:
  assumes "responseText = a @ DESCRIPCION @ b @ PROMPT @ c"
    and "\<not> sublist DESCRIPCION (a @ butlast DESCRIPCION)"
    and "\<not> sublist PROMPT (tl PROMPT @ c)"
    and "responseText = a' @ PROMPT @ c'"
    and "\<not> sublist PROMPT (a' @ butlast PROMPT)"
  shows "parseResponseText style responseText eff = ((trim b, trim c'), eff)"
proof -
  have D: "DESCRIPCION \<noteq> []" and P: "PROMPT \<noteq> []"
    by (simp_all add: DESCRIPCION_def PROMPT_def js_def)
  have "star_then PROMPT (b @ PROMPT @ c) = Some b"
    using P assms(3) by (rule star_then_last)
  with D assms(2) have "regex_match DESCRIPCION PROMPT (a @ DESCRIPCION @ b @ PROMPT @ c) = Some b"
    by (rule regex_match_first)
  then have d: "descriptionMatch responseText = Some b"
    by (simp add: descriptionMatch_def assms(1))
  have "regex_match PROMPT [] (a' @ PROMPT @ c') = Some c'"
    using P assms(5) star_then_Nil by (rule regex_match_first)
  then have p: "promptMatch responseText = Some c'"
    by (simp add: promptMatch_def assms(4))
  show ?thesis by (simp add: parseResponseText_def d p)
qed

text \<open>
  The response of the specification's example: the description is \<^verbatim>\<open>Great sale!\<close> followed by
  the emoji (a surrogate pair), the prompt is \<^verbatim>\<open>A photo of a sale banner\<close>.
\<close>

theorem parse_sections_witness:
  "parseResponseText (js ''Fresco y Natural'') sale_response no_effects
   = ((js ''Great sale! '' @ [0xD83C, 0xDF89], js ''A photo of a sale banner''), no_effects)"
proof -
  let ?a = "js ''---TEXTO_A_INTEGRAR---\<newline>Foo\<newline>''"
  let ?b = "js ''\<newline>Great sale! '' @ [0xD83C, 0xDF89] @ js ''\<newline>''"
  let ?c = "js ''\<newline>A photo of a sale banner''"
  let ?t = "js ''---TEXTO_A_INTEGRAR---\<newline>Foo\<newline>---DESCRIPCION---\<newline>Great sale! ''
      @ [0xD83C, 0xDF89] @ js ''\<newline>---PROMPT---\<newline>A photo of a sale banner''"
  have 1: "?t = ?a @ DESCRIPCION @ ?b @ PROMPT @ ?c"
    by (simp add: js_def DESCRIPCION_def PROMPT_def)
  have 2: "\<not> sublist DESCRIPCION (?a @ butlast DESCRIPCION)" by code_simp
  have 3: "\<not> sublist PROMPT (tl PROMPT @ ?c)" by code_simp
  have 4: "?t = (?a @ DESCRIPCION @ ?b) @ PROMPT @ ?c"
    by (simp add: js_def DESCRIPCION_def PROMPT_def)
  have 5: "\<not> sublist PROMPT ((?a @ DESCRIPCION @ ?b) @ butlast PROMPT)" by code_simp
  have tb: "trim ?b = js ''Great sale! '' @ [0xD83C, 0xDF89]"
    by (simp add: trim_def isWhiteSpace_def js_def)
  have tc: "trim ?c = js ''A photo of a sale banner''"
    by (simp add: trim_def isWhiteSpace_def js_def)
  show ?thesis
    using parse_sections [OF 1 2 3 4 5, of "js ''Fresco y Natural''" no_effects]
    by (simp only: tb tc sale_response_def)
qed

text \<open>
  With \<^verbatim>\<open>---PROMPT---\<close> twice in the response, the description runs to the second one and
  the image prompt starts after the first one, so whichever of the two is taken as the
  delimiter, one of the two extracted texts is not the section next to it.
\<close>

theorem parse_sections_counterexample:
  "fst (parseResponseText (js ''Fresco y Natural'')
          (DESCRIPCION @ js ''x'' @ PROMPT @ js ''y---PROMPT---z'') no_effects)
     \<noteq> (trim (js ''x''), trim (js ''y---PROMPT---z''))
   \<and> fst (parseResponseText (js ''Fresco y Natural'')
          (DESCRIPCION @ js ''x---PROMPT---y'' @ PROMPT @ js ''z'') no_effects)
     \<noteq> (trim (js ''x---PROMPT---y''), trim (js ''z''))"
  by code_simp

text \<open>
  The hypotheses of claim C1's theorem leave no response out: whenever
  \<^verbatim>\<open>---DESCRIPCION---\<close> is followed by \<^verbatim>\<open>---PROMPT---\<close>, the text splits at the first
  \<^verbatim>\<open>---DESCRIPCION---\<close> and the last \<^verbatim>\<open>---PROMPT---\<close>, and at the first
  \<^verbatim>\<open>---PROMPT---\<close>.
\<close>

lemma delimited_response_splits:
  assumes "t = x @ DESCRIPCION @ y @ PROMPT @ z"
  shows "\<exists>a b c a' c'.
           t = a @ DESCRIPCION @ b @ PROMPT @ c
         \<and> \<not> sublist DESCRIPCION (a @ butlast DESCRIPCION)
         \<and> \<not> sublist PROMPT (tl PROMPT @ c)
         \<and> t = a' @ PROMPT @ c'
         \<and> \<not> sublist PROMPT (a' @ butlast PROMPT)"
proof -
  have D: "DESCRIPCION \<noteq> []" and P: "PROMPT \<noteq> []"
    by (simp_all add: DESCRIPCION_def PROMPT_def js_def)
  from ex_first_occurrence[OF D assms]
  obtain a r where a: "t = a @ DESCRIPCION @ r" "\<not> sublist DESCRIPCION (a @ butlast DESCRIPCION)"
      "length a \<le> length x" by blast
  have "(a @ DESCRIPCION) @ r = (x @ DESCRIPCION) @ (y @ PROMPT @ z)"
    using a(1) assms by simp
  moreover have "length (a @ DESCRIPCION) \<le> length (x @ DESCRIPCION)" using a(3) by simp
  ultimately obtain u where "r = u @ y @ PROMPT @ z"
    by (rule longer_prefix_rest)
  then have "r = (u @ y) @ PROMPT @ z" by simp
  from ex_last_occurrence[OF P this]
  obtain b c where b: "r = b @ PROMPT @ c" "\<not> sublist PROMPT (tl PROMPT @ c)" by blast
  have "t = (x @ DESCRIPCION @ y) @ PROMPT @ z" using assms by simp
  from ex_first_occurrence[OF P this]
  obtain a' c' where p: "t = a' @ PROMPT @ c'" "\<not> sublist PROMPT (a' @ butlast PROMPT)" by blast
  show ?thesis using a(1,2) b p by blast
qed

lemma parseResponseText_fst:
  "fst (parseResponseText style t eff) = fst (parseResponseText style t eff')"
  by (simp add: parseResponseText_def Let_def)

lemma parseResponseText_requests:
  "requests (snd (parseResponseText style t eff)) = requests eff"
  by (simp add: parseResponseText_def Let_def)

lemma generateAdContent_requests:
  assumes "truthy (API_KEY svc)"
    and "generateContent svc (contentRequest images userPrompt style) = Inr resp"
    and "response_text resp = Some t"
  shows "requests (snd (generateAdContent svc images userPrompt style eff)) =
           requests eff @ [GenerateContent (contentRequest images userPrompt style),
                           GenerateImages (imageRequest (snd (fst (parseResponseText style t eff))))]"
proof -
  let ?eff1 = "eff\<lparr>requests := requests eff @ [GenerateContent (contentRequest images userPrompt style)]\<rparr>"
  obtain d p eff2 where pr: "parseResponseText style t ?eff1 = ((d, p), eff2)"
    by (metis prod.exhaust)
  have p: "snd (fst (parseResponseText style t eff)) = p"
    using parseResponseText_fst[of style t eff ?eff1] pr by simp
  have r: "requests eff2 = requests ?eff1"
    using parseResponseText_requests[of style t ?eff1] pr by simp
  show ?thesis
    using assms pr r
    by (simp add: generateAdContent_def getAiClient_def Let_def p
             split: sum.splits option.splits list.splits)
qed

text \<open>
  Claim C2. When the description pattern or the prompt pattern does not match, the
  description is the fixed fallback text (if its pattern failed), the image prompt is the
  fallback built from the style (if its pattern failed), and one warning is added to the
  console. Nothing is thrown: the step has no failing branch, and \<^verbatim>\<open>generateAdContent\<close> goes
  on to send the image request with the prompt so obtained.
\<close>

theorem parse_fallbacks:
  assumes "descriptionMatch t = None \<or> promptMatch t = None"
  shows "(descriptionMatch t = None \<longrightarrow>
            fst (fst (parseResponseText style t eff)) = fallbackDescription)
       \<and> (promptMatch t = None \<longrightarrow>
            snd (fst (parseResponseText style t eff)) = fallbackPrompt style)
       \<and> snd (parseResponseText style t eff) = eff\<lparr>console := console eff @ [formatWarning t]\<rparr>
       \<and> (truthy (API_KEY svc)
            \<and> generateContent svc (contentRequest images userPrompt style) = Inr resp
            \<and> response_text resp = Some t \<longrightarrow>
            requests (snd (generateAdContent svc images userPrompt style eff)) =
              requests eff @ [GenerateContent (contentRequest images userPrompt style),
                GenerateImages (imageRequest (snd (fst (parseResponseText style t eff))))])"
  using assms generateAdContent_requests[of svc images userPrompt style resp t eff]
  by (auto simp: parseResponseText_def Let_def)

theorem parse_fallbacks_witness:
  "descriptionMatch (js ''Lo siento, no puedo ayudar.'') = None
   \<and> promptMatch (js ''Lo siento, no puedo ayudar.'') = None
   \<and> parseResponseText (js ''Fresco y Natural'') (js ''Lo siento, no puedo ayudar.'') no_effects
       = ((fallbackDescription, fallbackPrompt (js ''Fresco y Natural'')),
          no_effects\<lparr>console := [formatWarning (js ''Lo siento, no puedo ayudar.'')]\<rparr>)
   \<and> requests (snd (generateAdContent
         (canned_services (Some (js ''Lo siento, no puedo ayudar.'')) []
            (Some [with_bytes (js ''QUJD'')]))
         [] [] (js ''Fresco y Natural'') no_effects))
       = [GenerateContent (contentRequest [] [] (js ''Fresco y Natural'')),
          GenerateImages (imageRequest (fallbackPrompt (js ''Fresco y Natural'')))]"
proof -
  let ?t = "js ''Lo siento, no puedo ayudar.''"
  let ?svc = "canned_services (Some ?t) [] (Some [with_bytes (js ''QUJD'')])"
  have d: "descriptionMatch ?t = None" by code_simp
  have p: "promptMatch ?t = None" by code_simp
  have k: "truthy (API_KEY ?svc)" by (simp add: canned_services_def truthy_def js_def)
  have g: "generateContent ?svc (contentRequest [] [] (js ''Fresco y Natural''))
             = Inr \<lparr>response_text = Some ?t, candidates = []\<rparr>"
    by (simp add: canned_services_def)
  have c: "console no_effects = []" and r: "requests no_effects = []"
    by (simp_all add: no_effects_def)
  from parse_fallbacks [of ?t "js ''Fresco y Natural''" no_effects ?svc "[]" "[]"
         "\<lparr>response_text = Some ?t, candidates = []\<rparr>"] d p k g
  show ?thesis by (simp add: c r prod_eq_iff)
qed

section \<open>The image request of generateAdContent\<close>

text \<open>
  Once the first request has returned a text, \<^verbatim>\<open>generateAdContent\<close> sends exactly one more
  request: an image generation with the extracted prompt, one image, JPEG, aspect ratio 1:1.
  What it returns follows the answer. Without a list of generated images, or with an empty
  one, it is the error \<^verbatim>\<open>No se pudo generar la imagen publicitaria.\<close> With a first entry
  that has an image, it is a \<^verbatim>\<open>data:image/jpeg;base64,\<close> URI of that image's bytes with the
  extracted description. With a first entry that has no image, it is the \<^verbatim>\<open>TypeError\<close> of
  reading \<^verbatim>\<open>imageBytes\<close> of \<^verbatim>\<open>undefined\<close>.
\<close>

lemma generateAdContent_image_step:
  assumes "truthy (API_KEY svc)"
    and "generateContent svc (contentRequest images userPrompt style) = Inr resp"
    and "response_text resp = Some t"
    and "fst (parseResponseText style t eff) = (d, p)"
  shows "requests (snd (generateAdContent svc images userPrompt style eff)) =
           requests eff @
           [GenerateContent (contentRequest images userPrompt style),
            GenerateImages \<lparr>images_model = js ''imagen-4.0-generate-001'', prompt = p,
                            numberOfImages = 1, outputMimeType = js ''image/jpeg'',
                            aspectRatio = js ''1:1''\<rparr>]
       \<and> (\<forall>ir first rest img.
             generateImages svc (imageRequest p) = Inr ir
             \<and> generatedImages ir = Some (first # rest) \<and> image_gi first = Some img \<longrightarrow>
             fst (generateAdContent svc images userPrompt style eff) =
               Inr \<lparr>imageUrl = js ''data:image/jpeg;base64,'' @ interpolate (imageBytes img),
                    description = d\<rparr>)
       \<and> (\<forall>ir first rest.
             generateImages svc (imageRequest p) = Inr ir
             \<and> generatedImages ir = Some (first # rest) \<and> image_gi first = None \<longrightarrow>
             fst (generateAdContent svc images userPrompt style eff) =
               Inl (TypeError (js ''imageBytes'')))
       \<and> (\<forall>ir.
             generateImages svc (imageRequest p) = Inr ir
             \<and> (generatedImages ir = None \<or> generatedImages ir = Some []) \<longrightarrow>
             fst (generateAdContent svc images userPrompt style eff) =
               Inl (Error (js ''No se pudo generar la imagen publicitaria.'')))"
proof -
  let ?eff1 = "eff\<lparr>requests := requests eff @ [GenerateContent (contentRequest images userPrompt style)]\<rparr>"
  obtain eff2 where pr: "parseResponseText style t ?eff1 = ((d, p), eff2)"
    using parseResponseText_fst[of style t ?eff1 eff] assms(4)
    by (metis prod.collapse)
  have req: "requests (snd (generateAdContent svc images userPrompt style eff)) =
           requests eff @ [GenerateContent (contentRequest images userPrompt style),
                           GenerateImages (imageRequest p)]"
    using generateAdContent_requests[OF assms(1-3), of eff] assms(4) by simp
  have out: "fst (generateAdContent svc images userPrompt style eff) =
      (case generateImages svc (imageRequest p) of
         Inl e \<Rightarrow> Inl e
       | Inr ir \<Rightarrow> (case generatedImages ir of
            Some (first # _) \<Rightarrow>
              (case image_gi first of
                 None \<Rightarrow> Inl (TypeError (js ''imageBytes''))
               | Some img \<Rightarrow> Inr \<lparr>imageUrl = js ''data:image/jpeg;base64,''
                                               @ interpolate (imageBytes img),
                                    description = d\<rparr>)
          | _ \<Rightarrow> Inl (Error (js ''No se pudo generar la imagen publicitaria.''))))"
    using assms(1-3) pr
    by (simp add: generateAdContent_def getAiClient_def Let_def
             split: sum.splits option.splits list.splits)
  show ?thesis
    using req by (auto simp: out imageRequest_def)
qed

lemma sale_response_parse:
  "fst (parseResponseText (js ''Fresco y Natural'') sale_response no_effects)
     = (js ''Great sale! '' @ [0xD83C, 0xDF89], js ''A photo of a sale banner'')"
  by code_simp

lemma sale_response_step:
  "truthy (API_KEY (canned_services (Some sale_response) [] imgs))"
  "generateContent (canned_services (Some sale_response) [] imgs)
     (contentRequest [] [] (js ''Fresco y Natural''))
     = Inr \<lparr>response_text = Some sale_response, candidates = []\<rparr>"
  "generateImages (canned_services (Some sale_response) [] imgs) req
     = Inr \<lparr>generatedImages = imgs\<rparr>"
  by (simp_all add: canned_services_def truthy_def js_def)

text \<open>
  On the response of the specification's example: two generated images give the first
  one's bytes, an empty list and a missing list give the generic error.
\<close>

lemma generateAdContent_image_step_example:
  "fst (generateAdContent
     (canned_services (Some sale_response) []
        (Some [with_bytes (js ''QUJD''), with_bytes (js ''REVG'')]))
     [] [] (js ''Fresco y Natural'') no_effects)
   = Inr \<lparr>imageUrl = js ''data:image/jpeg;base64,'' @ js ''QUJD'',
          description = js ''Great sale! '' @ [0xD83C, 0xDF89]\<rparr>
   \<and> requests (snd (generateAdContent
     (canned_services (Some sale_response) []
        (Some [with_bytes (js ''QUJD''), with_bytes (js ''REVG'')]))
     [] [] (js ''Fresco y Natural'') no_effects))
   = [GenerateContent (contentRequest [] [] (js ''Fresco y Natural'')),
      GenerateImages \<lparr>images_model = js ''imagen-4.0-generate-001'',
                      prompt = js ''A photo of a sale banner'',
                      numberOfImages = 1, outputMimeType = js ''image/jpeg'',
                      aspectRatio = js ''1:1''\<rparr>]
   \<and> fst (generateAdContent (canned_services (Some sale_response) [] (Some []))
            [] [] (js ''Fresco y Natural'') no_effects)
       = Inl (Error (js ''No se pudo generar la imagen publicitaria.''))
   \<and> fst (generateAdContent (canned_services (Some sale_response) [] None)
            [] [] (js ''Fresco y Natural'') no_effects)
       = Inl (Error (js ''No se pudo generar la imagen publicitaria.''))"
proof -
  have t: "response_text \<lparr>response_text = Some sale_response, candidates = []\<rparr>
             = Some sale_response" by simp
  have r: "requests no_effects = []" by (simp add: no_effects_def)
  note step = generateAdContent_image_step
                [OF sale_response_step(1) sale_response_step(2) t sale_response_parse]
  show ?thesis
    using step [of "Some [with_bytes (js ''QUJD''), with_bytes (js ''REVG'')]"]
          step [of "Some []"] step [of None]
    by (simp add: sale_response_step(3) r with_bytes_def interpolate_def)
qed

text \<open>
  Claim C7 at an answer whose first entry has no image, and at one whose image has no
  bytes. The list is not empty, so the guard lets both through. The first fails while
  reading \<^verbatim>\<open>imageBytes\<close> of \<^verbatim>\<open>undefined\<close>, with a \<^verbatim>\<open>TypeError\<close> and not with the error
  \<^verbatim>\<open>No se pudo generar la imagen publicitaria.\<close> of the claim; the second returns a URI
  that ends in the word \<^verbatim>\<open>undefined\<close> instead of encoded bytes. The image request itself is
  as the claim says.
\<close>

theorem generateAdContent_entry_without_image:
  "fst (generateAdContent (canned_services (Some sale_response) [] (Some [\<lparr>image_gi = None\<rparr>]))
          [] [] (js ''Fresco y Natural'') no_effects)
     = Inl (TypeError (js ''imageBytes''))
   \<and> fst (generateAdContent
            (canned_services (Some sale_response) []
               (Some [\<lparr>image_gi = Some \<lparr>imageBytes = None\<rparr>\<rparr>]))
            [] [] (js ''Fresco y Natural'') no_effects)
     = Inr \<lparr>imageUrl = js ''data:image/jpeg;base64,undefined'',
            description = js ''Great sale! '' @ [0xD83C, 0xDF89]\<rparr>
   \<and> requests (snd (generateAdContent
            (canned_services (Some sale_response) [] (Some [\<lparr>image_gi = None\<rparr>]))
            [] [] (js ''Fresco y Natural'') no_effects))
     = [GenerateContent (contentRequest [] [] (js ''Fresco y Natural'')),
        GenerateImages \<lparr>images_model = js ''imagen-4.0-generate-001'',
                        prompt = js ''A photo of a sale banner'',
                        numberOfImages = 1, outputMimeType = js ''image/jpeg'',
                        aspectRatio = js ''1:1''\<rparr>]"
proof -
  have t: "response_text \<lparr>response_text = Some sale_response, candidates = []\<rparr>
             = Some sale_response" by simp
  have r: "requests no_effects = []" by (simp add: no_effects_def)
  note step = generateAdContent_image_step
                [OF sale_response_step(1) sale_response_step(2) t sale_response_parse]
  show ?thesis
    using step [of "Some [\<lparr>image_gi = None\<rparr>]"]
          step [of "Some [\<lparr>image_gi = Some \<lparr>imageBytes = None\<rparr>\<rparr>]"]
    by (simp add: sale_response_step(3) r interpolate_def js_def)
qed

section \<open>The answer of editAdImage\<close>

text \<open>
  The loop over the parts returns the first part with inline data as a data URI with that
  part's MIME type, and the error \<^verbatim>\<open>No se pudo editar la imagen.\<close> when no part has any. This is
  what \<^verbatim>\<open>editAdImage\<close> returns whenever the response has a first candidate.
\<close>

lemma first_inline_found:
  assumes "\<forall>p \<in> set pre. inlineData p = None" and "inlineData part = Some d"
  shows "first_inline (pre @ part # post) = Inr (js ''data:'' @ mimeType d @ js '';base64,'' @ data d)"
  using assms by (induction pre) auto

lemma first_inline_none:
  assumes "\<forall>p \<in> set ps. inlineData p = None"
  shows "first_inline ps = Inl (Error (js ''No se pudo editar la imagen.''))"
  using assms by (induction ps) auto

lemma editAdImage_first_candidate:
  assumes "truthy (API_KEY svc)"
    and "generateContent svc (editRequest base64Image mime editPrompt') = Inr response"
    and "candidates response = candidate # others"
  shows "fst (editAdImage svc base64Image mime editPrompt' eff) = first_inline (content_parts candidate)"
  using assms by (simp add: editAdImage_def getAiClient_def Let_def)

text \<open>
  Claim C8 at a response without candidates (what the service answers when it blocks a
  request): no part carries an image, and the call fails while reading \<^verbatim>\<open>content\<close> of
  \<^verbatim>\<open>undefined\<close>, with a \<^verbatim>\<open>TypeError\<close>, not with the error of the claim.
\<close>

theorem editAdImage_no_candidates:
  "fst (editAdImage (canned_services None [] None) (js ''QUJD'') (js ''image/png'')
          (js ''hazlo azul'') no_effects) = Inl (TypeError (js ''content''))"
  by (simp add: editAdImage_def getAiClient_def canned_services_def truthy_def js_def Let_def)

section \<open>Saving a project\<close>

text \<open>
  Claim C6. Saving an empty generation list changes nothing: the list in memory, local
  storage and the console are as before, whatever the project identifier and the saved list
  are.
\<close>

theorem saveCurrentProject_empty:
  "saveCurrentProject br currentProjectId' savedProjects' [] app = app"
  by (simp add: saveCurrentProject_def)

lemma saveCurrentProject_savedProjects:
  assumes "gs \<noteq> []" and "pid \<noteq> []"
  shows "savedProjects (saveCurrentProject br (Some pid) sps gs app) =
           \<lparr>id_sp = pid, generations_sp = gs, timestamp = toLocaleString br,
            previewImage = imageUrl (store app (hd gs))\<rparr> # filter (\<lambda>p. id_sp p \<noteq> pid) sps"
  using assms
  by (simp add: saveCurrentProject_def truthy_def Let_def setItem_def hd_conv_nth
           split: option.splits prod.splits)

lemma saveCurrentProject_store:
  "store (saveCurrentProject br cpid sps gs app) = store app"
  by (simp add: saveCurrentProject_def Let_def setItem_def split: option.splits prod.splits)

lemma saveCurrentProject_frame:
  "generations (saveCurrentProject br cpid sps gs app) = generations app"
  "next_ref (saveCurrentProject br cpid sps gs app) = next_ref app"
  by (simp_all add: saveCurrentProject_def Let_def setItem_def split: option.splits prod.splits)

lemma saveCurrentProject_localStorage:
  assumes "gs \<noteq> []" and "pid \<noteq> []"
    and "setItem_throws br (js ''savedProjects'')
           (stringify (store app) (savedProjects (saveCurrentProject br (Some pid) sps gs app))) = None"
  shows "localStorage (outside (saveCurrentProject br (Some pid) sps gs app)) =
           (localStorage (outside app))(js ''savedProjects'' \<mapsto>
              stringify (store app) (savedProjects (saveCurrentProject br (Some pid) sps gs app)))"
  using assms(3) unfolding saveCurrentProject_savedProjects[OF assms(1,2)]
  using assms(1,2)
  by (simp add: saveCurrentProject_def truthy_def Let_def setItem_def hd_conv_nth
           split: option.splits prod.splits)

text \<open>
  Claim C5. After saving a non-empty generation list under an active identifier, the saved
  list has exactly one entry with that identifier; its generations are the saved list and
  its preview image is the URL of the first generation at that moment, whatever an older
  entry held. The same holds for the array written to local storage when the write is
  accepted.
\<close>

theorem saveCurrentProject_overwrites:
  assumes "gs \<noteq> []" and "pid \<noteq> []"
  shows "filter (\<lambda>p. id_sp p = pid) (savedProjects (saveCurrentProject br (Some pid) sps gs app))
           = [\<lparr>id_sp = pid, generations_sp = gs, timestamp = toLocaleString br,
               previewImage = imageUrl (store app (hd gs))\<rparr>]
       \<and> (setItem_throws br (js ''savedProjects'')
             (stringify (store app) (savedProjects (saveCurrentProject br (Some pid) sps gs app))) = None
           \<longrightarrow> (\<exists>stored. localStorage (outside (saveCurrentProject br (Some pid) sps gs app))
                  (js ''savedProjects'') = Some stored
                \<and> filter (\<lambda>p. stored_id p = pid) stored
                    = [\<lparr>stored_id = pid, stored_generations = map (store app) gs,
                        stored_timestamp = toLocaleString br,
                        stored_previewImage = imageUrl (store app (hd gs))\<rparr>]))"
proof -
  let ?new = "\<lparr>id_sp = pid, generations_sp = gs, timestamp = toLocaleString br,
               previewImage = imageUrl (store app (hd gs))\<rparr>"
  have sp: "savedProjects (saveCurrentProject br (Some pid) sps gs app)
              = ?new # filter (\<lambda>p. id_sp p \<noteq> pid) sps"
    by (rule saveCurrentProject_savedProjects[OF assms])
  have f: "filter (\<lambda>p. id_sp p = pid) (filter (\<lambda>p. id_sp p \<noteq> pid) sps) = []"
    by (induction sps) auto
  have g: "filter (\<lambda>p. stored_id p = pid)
             (stringify (store app) (filter (\<lambda>p. id_sp p \<noteq> pid) sps)) = []"
    by (induction sps) (auto simp: stringify_def)
  show ?thesis
    using saveCurrentProject_localStorage[OF assms, of br app sps]
    by (auto simp: sp f g stringify_def)
qed

lemmas demo_defs = demo_app_def demo_browser_def demo_project_def no_effects_def

theorem saveCurrentProject_overwrites_witness:
  "filter (\<lambda>p. id_sp p = js ''p2'')
     (savedProjects (saveCurrentProject demo_browser (Some (js ''p2''))
                       (savedProjects demo_app) [0, 1] demo_app))
     = [\<lparr>id_sp = js ''p2'', generations_sp = [0, 1], timestamp = js ''3/11/2026, 10:15:00'',
         previewImage = js ''data:image/jpeg;base64,AAAA''\<rparr>]
   \<and> (\<exists>stored. localStorage (outside (saveCurrentProject demo_browser (Some (js ''p2''))
                       (savedProjects demo_app) [0, 1] demo_app)) (js ''savedProjects'')
                   = Some stored
         \<and> filter (\<lambda>p. stored_id p = js ''p2'') stored
             = [\<lparr>stored_id = js ''p2'',
                 stored_generations =
                   [\<lparr>imageUrl = js ''data:image/jpeg;base64,AAAA'', description = js ''Uno''\<rparr>,
                    \<lparr>imageUrl = js ''data:image/jpeg;base64,AAAA'', description = js ''Dos''\<rparr>],
                 stored_timestamp = js ''3/11/2026, 10:15:00'',
                 stored_previewImage = js ''data:image/jpeg;base64,AAAA''\<rparr>])"
proof -
  have 1: "[0, 1] \<noteq> ([] :: ref list)" by simp
  have 2: "js ''p2'' \<noteq> []" by (simp add: js_def)
  have ok: "\<And>v. setItem_throws demo_browser (js ''savedProjects'') v = None"
    by (simp add: demo_browser_def)
  have b: "toLocaleString demo_browser = js ''3/11/2026, 10:15:00''"
    by (simp add: demo_browser_def)
  have s: "map (store demo_app) [0, 1] =
             [\<lparr>imageUrl = js ''data:image/jpeg;base64,AAAA'', description = js ''Uno''\<rparr>,
              \<lparr>imageUrl = js ''data:image/jpeg;base64,AAAA'', description = js ''Dos''\<rparr>]"
       and u: "imageUrl (store demo_app (hd [0, 1])) = js ''data:image/jpeg;base64,AAAA''"
    by (simp_all add: demo_app_def)
  show ?thesis
    using saveCurrentProject_overwrites [OF 1 2, of demo_browser "savedProjects demo_app" demo_app]
    by (simp only: ok b s u simp_thms)
qed

lemma saves_ids:
  assumes "\<forall>(p, g) \<in> set reqs. p \<noteq> [] \<and> g \<noteq> []"
  shows "map id_sp (savedProjects (saves br reqs app)) =
           rev (remdups (map fst reqs))
           @ filter (\<lambda>i. i \<notin> fst ` set reqs) (map id_sp (savedProjects app))"
  using assms
proof (induction reqs arbitrary: app)
  case Nil
  then show ?case by simp
next
  case (Cons r reqs)
  obtain pid gs where r: "r = (pid, gs)" by (cases r)
  from Cons.prems r have ok: "gs \<noteq> []" "pid \<noteq> []" by auto
  let ?app1 = "saveCurrentProject br (Some pid) (savedProjects app) gs app"
  have ids1: "map id_sp (savedProjects ?app1) =
                pid # filter (\<lambda>i. i \<noteq> pid) (map id_sp (savedProjects app))"
    by (simp add: saveCurrentProject_savedProjects[OF ok] filter_map comp_def)
  have IH: "map id_sp (savedProjects (saves br reqs ?app1)) =
              rev (remdups (map fst reqs))
              @ filter (\<lambda>i. i \<notin> fst ` set reqs) (map id_sp (savedProjects ?app1))"
    using Cons.IH[of ?app1] Cons.prems by simp
  have comb: "filter (\<lambda>i. i \<notin> fst ` set reqs) (filter (\<lambda>i. i \<noteq> pid) (map id_sp (savedProjects app)))
            = filter (\<lambda>i. i \<notin> fst ` set (r # reqs)) (map id_sp (savedProjects app))"
    by (auto simp: r intro: filter_cong)
  show ?case
  proof (cases "pid \<in> fst ` set reqs")
    case True
    then show ?thesis using IH comb by (simp add: r ids1)
  next
    case False
    then show ?thesis using IH comb by (simp add: r ids1)
  qed
qed

lemma filter_unique:
  assumes "id_sp p = pid" and "pid \<notin> id_sp ` set pre" and "pid \<notin> id_sp ` set post"
  shows "filter (\<lambda>q. id_sp q \<noteq> pid) (pre @ p # post) = pre @ post"
proof -
  have "filter (\<lambda>q. id_sp q \<noteq> pid) pre = pre" using assms(2) by (auto intro: filter_True)
  moreover have "filter (\<lambda>q. id_sp q \<noteq> pid) post = post" using assms(3) by (auto intro: filter_True)
  ultimately show ?thesis using assms(1) by simp
qed

text \<open>
  Claim C9. A save puts the project's entry at the head of the list and leaves the other
  entries in their order: a new project is added in front of the old list, an existing one
  leaves its position. After a run of saves the identifiers are therefore in the order of
  their last save, latest first (\<open>remdups\<close> keeps the last occurrence), followed by the
  projects the run did not save.
\<close>

theorem saveCurrentProject_front:
  assumes "gs \<noteq> []" and "pid \<noteq> []"
  shows "savedProjects (saveCurrentProject br (Some pid) sps gs app) =
           \<lparr>id_sp = pid, generations_sp = gs, timestamp = toLocaleString br,
            previewImage = imageUrl (store app (hd gs))\<rparr> # filter (\<lambda>p. id_sp p \<noteq> pid) sps
       \<and> (pid \<notin> id_sp ` set sps \<longrightarrow>
            savedProjects (saveCurrentProject br (Some pid) sps gs app) =
              \<lparr>id_sp = pid, generations_sp = gs, timestamp = toLocaleString br,
               previewImage = imageUrl (store app (hd gs))\<rparr> # sps)
       \<and> (\<forall>pre p post. sps = pre @ p # post \<and> id_sp p = pid
              \<and> pid \<notin> id_sp ` set pre \<and> pid \<notin> id_sp ` set post \<longrightarrow>
            savedProjects (saveCurrentProject br (Some pid) sps gs app) =
              \<lparr>id_sp = pid, generations_sp = gs, timestamp = toLocaleString br,
               previewImage = imageUrl (store app (hd gs))\<rparr> # pre @ post)
       \<and> ((\<forall>(p, g) \<in> set reqs. p \<noteq> [] \<and> g \<noteq> []) \<longrightarrow>
            map id_sp (savedProjects (saves br reqs app)) =
              rev (remdups (map fst reqs))
              @ filter (\<lambda>i. i \<notin> fst ` set reqs) (map id_sp (savedProjects app)))"
proof -
  have absent: "pid \<notin> id_sp ` set sps \<Longrightarrow> filter (\<lambda>p. id_sp p \<noteq> pid) sps = sps"
    by (auto intro: filter_True)
  show ?thesis
    using saves_ids[of reqs br app] absent
    by (auto simp: saveCurrentProject_savedProjects[OF assms] filter_unique simp del: filter_append filter.simps)
qed

theorem saveCurrentProject_front_witness:
  "savedProjects (saveCurrentProject demo_browser (Some (js ''p2'')) (savedProjects demo_app)
                    [0, 1] demo_app)
     = [\<lparr>id_sp = js ''p2'', generations_sp = [0, 1], timestamp = js ''3/11/2026, 10:15:00'',
         previewImage = js ''data:image/jpeg;base64,AAAA''\<rparr>,
        demo_project (js ''p1'') [2], demo_project (js ''p3'') [3]]
   \<and> savedProjects (saveCurrentProject demo_browser (Some (js ''p9'')) (savedProjects demo_app)
                    [0, 1] demo_app)
     = \<lparr>id_sp = js ''p9'', generations_sp = [0, 1], timestamp = js ''3/11/2026, 10:15:00'',
         previewImage = js ''data:image/jpeg;base64,AAAA''\<rparr> # savedProjects demo_app
   \<and> map id_sp (savedProjects
         (saves demo_browser [(js ''p3'', [3]), (js ''p4'', [0]), (js ''p3'', [3, 1])] demo_app))
     = [js ''p3'', js ''p4'', js ''p1'', js ''p2'']"
proof -
  let ?reqs = "[(js ''p3'', [3]), (js ''p4'', [0]), (js ''p3'', [3, 1])] :: (jsstring \<times> ref list) list"
  have 1: "[0, 1] \<noteq> ([] :: ref list)" by simp
  have 2: "js ''p2'' \<noteq> []" and 9: "js ''p9'' \<noteq> []" by (simp_all add: js_def)
  have b: "toLocaleString demo_browser = js ''3/11/2026, 10:15:00''"
    by (simp add: demo_browser_def)
  have u: "imageUrl (store demo_app (hd [0, 1])) = js ''data:image/jpeg;base64,AAAA''"
    by (simp add: demo_app_def)
  have reqs: "\<forall>(p, g) \<in> set ?reqs. p \<noteq> [] \<and> g \<noteq> []" by (simp add: js_def)
  have ids: "rev (remdups (map fst ?reqs))
             @ filter (\<lambda>i. i \<notin> fst ` set ?reqs) (map id_sp (savedProjects demo_app))
             = [js ''p3'', js ''p4'', js ''p1'', js ''p2'']"
    by (simp add: demo_defs js_def)
  have split: "savedProjects demo_app
                 = [demo_project (js ''p1'') [2]] @ demo_project (js ''p2'') [0, 1]
                   # [demo_project (js ''p3'') [3]]
               \<and> id_sp (demo_project (js ''p2'') [0, 1]) = js ''p2''
               \<and> js ''p2'' \<notin> id_sp ` set [demo_project (js ''p1'') [2]]
               \<and> js ''p2'' \<notin> id_sp ` set [demo_project (js ''p3'') [3]]"
    by (simp add: demo_defs js_def)
  have absent: "js ''p9'' \<notin> id_sp ` set (savedProjects demo_app)"
    by (simp add: demo_defs js_def)
  note present = saveCurrentProject_front [OF 1 2, of demo_browser "savedProjects demo_app" demo_app ?reqs]
  note new = saveCurrentProject_front [OF 1 9, of demo_browser "savedProjects demo_app" demo_app ?reqs]
  have A: "savedProjects (saveCurrentProject demo_browser (Some (js ''p2'')) (savedProjects demo_app)
                    [0, 1] demo_app)
     = \<lparr>id_sp = js ''p2'', generations_sp = [0, 1], timestamp = toLocaleString demo_browser,
         previewImage = imageUrl (store demo_app (hd [0, 1]))\<rparr>
       # [demo_project (js ''p1'') [2]] @ [demo_project (js ''p3'') [3]]"
    by (rule present [THEN conjunct2, THEN conjunct2, THEN conjunct1, rule_format, OF split])
  have B: "savedProjects (saveCurrentProject demo_browser (Some (js ''p9'')) (savedProjects demo_app)
                    [0, 1] demo_app)
     = \<lparr>id_sp = js ''p9'', generations_sp = [0, 1], timestamp = toLocaleString demo_browser,
         previewImage = imageUrl (store demo_app (hd [0, 1]))\<rparr> # savedProjects demo_app"
    by (rule new [THEN conjunct2, THEN conjunct1, rule_format, OF absent])
  have C: "map id_sp (savedProjects (saves demo_browser ?reqs demo_app))
            = rev (remdups (map fst ?reqs))
              @ filter (\<lambda>i. i \<notin> fst ` set ?reqs) (map id_sp (savedProjects demo_app))"
    by (rule present [THEN conjunct2, THEN conjunct2, THEN conjunct2, THEN mp, OF reqs])
  show ?thesis
    using A B C by (simp only: b u ids append.simps simp_thms)
qed

section \<open>Deleting a project\<close>

text \<open>
  Claim C4. After deleting an identifier that is in the list, no entry has it, the other
  entries are there in their order (so the list is shorter), and when one entry has the
  identifier the result is the list without that entry. The generations in the store are
  untouched, and the same list goes to local storage when the write is accepted.
\<close>

theorem handleDeleteProject_removes:
  assumes "projectId \<in> id_sp ` set (savedProjects app)"
  shows "(\<forall>p \<in> set (savedProjects (handleDeleteProject br projectId app)). id_sp p \<noteq> projectId)
       \<and> filter (\<lambda>p. id_sp p \<noteq> projectId) (savedProjects (handleDeleteProject br projectId app))
           = filter (\<lambda>p. id_sp p \<noteq> projectId) (savedProjects app)
       \<and> length (savedProjects (handleDeleteProject br projectId app)) < length (savedProjects app)
       \<and> (\<forall>pre p post. savedProjects app = pre @ p # post \<and> id_sp p = projectId
             \<and> projectId \<notin> id_sp ` set pre \<and> projectId \<notin> id_sp ` set post \<longrightarrow>
             savedProjects (handleDeleteProject br projectId app) = pre @ post)
       \<and> store (handleDeleteProject br projectId app) = store app
       \<and> (setItem_throws br (js ''savedProjects'')
             (stringify (store app) (savedProjects (handleDeleteProject br projectId app))) = None
            \<longrightarrow> localStorage (outside (handleDeleteProject br projectId app)) (js ''savedProjects'')
                  = Some (stringify (store app) (savedProjects (handleDeleteProject br projectId app))))"
proof -
  have sp: "savedProjects (handleDeleteProject br projectId app)
              = filter (\<lambda>p. id_sp p \<noteq> projectId) (savedProjects app)"
    by (simp add: handleDeleteProject_def Let_def setItem_def split: option.splits prod.splits)
  have st: "store (handleDeleteProject br projectId app) = store app"
    by (simp add: handleDeleteProject_def Let_def setItem_def split: option.splits prod.splits)
  have shorter: "length (filter (\<lambda>p. id_sp p \<noteq> projectId) (savedProjects app))
                   < length (savedProjects app)"
    using assms by (auto intro!: length_filter_less)
  have ls: "setItem_throws br (js ''savedProjects'')
              (stringify (store app) (filter (\<lambda>p. id_sp p \<noteq> projectId) (savedProjects app))) = None
            \<Longrightarrow> localStorage (outside (handleDeleteProject br projectId app)) (js ''savedProjects'')
                = Some (stringify (store app) (filter (\<lambda>p. id_sp p \<noteq> projectId) (savedProjects app)))"
    by (simp add: handleDeleteProject_def Let_def setItem_def split: option.splits prod.splits)
  show ?thesis
    unfolding sp st using shorter ls
    by (auto simp: filter_unique simp del: filter_append filter.simps)
qed

theorem handleDeleteProject_removes_witness:
  "js ''p2'' \<in> id_sp ` set (savedProjects demo_app)
   \<and> savedProjects (handleDeleteProject demo_browser (js ''p2'') demo_app)
       = [demo_project (js ''p1'') [2], demo_project (js ''p3'') [3]]
   \<and> store (handleDeleteProject demo_browser (js ''p2'') demo_app) = store demo_app
   \<and> localStorage (outside (handleDeleteProject demo_browser (js ''p2'') demo_app))
         (js ''savedProjects'')
       = Some (stringify (store demo_app)
                 [demo_project (js ''p1'') [2], demo_project (js ''p3'') [3]])"
proof -
  have h: "js ''p2'' \<in> id_sp ` set (savedProjects demo_app)"
    by (simp add: demo_defs js_def)
  note t = handleDeleteProject_removes [OF h, of demo_browser]
  have split: "savedProjects demo_app
                 = [demo_project (js ''p1'') [2]] @ demo_project (js ''p2'') [0, 1]
                   # [demo_project (js ''p3'') [3]]
               \<and> id_sp (demo_project (js ''p2'') [0, 1]) = js ''p2''
               \<and> js ''p2'' \<notin> id_sp ` set [demo_project (js ''p1'') [2]]
               \<and> js ''p2'' \<notin> id_sp ` set [demo_project (js ''p3'') [3]]"
    by (simp add: demo_defs js_def)
  from t split have sp: "savedProjects (handleDeleteProject demo_browser (js ''p2'') demo_app)
       = [demo_project (js ''p1'') [2]] @ [demo_project (js ''p3'') [3]]"
    by blast
  have ok: "setItem_throws demo_browser (js ''savedProjects'')
              (stringify (store demo_app)
                 (savedProjects (handleDeleteProject demo_browser (js ''p2'') demo_app))) = None"
    by (simp add: demo_browser_def)
  from t ok have "localStorage (outside (handleDeleteProject demo_browser (js ''p2'') demo_app))
         (js ''savedProjects'')
       = Some (stringify (store demo_app)
                 (savedProjects (handleDeleteProject demo_browser (js ''p2'') demo_app)))"
    by blast
  with h t sp show ?thesis by simp
qed

section \<open>Editing the last generation\<close>

lemma editAdImage_keeps:
  "localStorage (snd (editAdImage svc b m p eff)) = localStorage eff"
  "console (snd (editAdImage svc b m p eff)) = console eff"
  by (simp_all add: editAdImage_def Let_def split: sum.splits list.splits)

lemma editedImage_keeps:
  "localStorage (snd (editedImage br svc url p eff)) = localStorage eff"
  "console (snd (editedImage br svc url p eff)) = console eff"
  by (simp_all add: editedImage_def Let_def editAdImage_keeps split: sum.splits prod.splits)

lemma handleEdit_Inr:
  assumes "editPrompt app \<noteq> []" and "generations app \<noteq> []"
    and "editedImage br svc (imageUrl (store app (last (generations app)))) (editPrompt app)
           (outside app) = (Inr newImageUrl, eff)"
  shows "handleEdit br svc app =
           (saveCurrentProject br (currentProjectId app) (savedProjects app) (generations app)
              (app\<lparr>step := editing, error := [], outside := eff,
                    store := (store app)(last (generations app) :=
                               (store app (last (generations app)))\<lparr>imageUrl := newImageUrl\<rparr>)\<rparr>))
           \<lparr>editPrompt := [], step := result\<rparr>"
  using assms by (simp add: handleEdit_def Let_def last_conv_nth)

lemma handleEdit_Inl:
  assumes "editPrompt app \<noteq> []" and "generations app \<noteq> []"
    and "editedImage br svc (imageUrl (store app (last (generations app)))) (editPrompt app)
           (outside app) = (Inl err, eff)"
  shows "handleEdit br svc app =
           app\<lparr>step := result, outside := eff,
                error := js ''Error al editar imagen: '' @ errorMessage br err\<rparr>"
  using assms by (simp add: handleEdit_def Let_def last_conv_nth)

text \<open>
  Claim C10. When a step of the edit throws (the fetch, the conversion, or the edit call),
  the generation list, the generations in the store, the saved projects and local storage
  are as before, the error message starts with \<^verbatim>\<open>Error al editar imagen:\<close>, and the step is
  \<open>result\<close> again.
\<close>

theorem handleEdit_failure:
  assumes "editPrompt app \<noteq> []" and "generations app \<noteq> []"
    and "fst (editedImage br svc (imageUrl (store app (last (generations app))))
           (editPrompt app) (outside app)) = Inl err"
  shows "generations (handleEdit br svc app) = generations app
       \<and> store (handleEdit br svc app) = store app
       \<and> savedProjects (handleEdit br svc app) = savedProjects app
       \<and> localStorage (outside (handleEdit br svc app)) = localStorage (outside app)
       \<and> error (handleEdit br svc app) = js ''Error al editar imagen: '' @ errorMessage br err
       \<and> error (handleEdit br svc app) \<noteq> []
       \<and> step (handleEdit br svc app) = result"
proof -
  obtain eff where e: "editedImage br svc (imageUrl (store app (last (generations app))))
           (editPrompt app) (outside app) = (Inl err, eff)"
    using assms(3) by (metis prod.collapse)
  have l: "localStorage eff = localStorage (outside app)"
    using editedImage_keeps(1)[of br svc "imageUrl (store app (last (generations app)))"
             "editPrompt app" "outside app"] e by simp
  show ?thesis
    by (simp add: handleEdit_Inl[OF assms(1,2) e] l js_def)
qed

theorem handleEdit_failure_witness:
  "generations (handleEdit demo_browser failing_services demo_app) = [0, 1]
   \<and> store (handleEdit demo_browser failing_services demo_app) = store demo_app
   \<and> savedProjects (handleEdit demo_browser failing_services demo_app) = savedProjects demo_app
   \<and> localStorage (outside (handleEdit demo_browser failing_services demo_app)) = Map.empty
   \<and> error (handleEdit demo_browser failing_services demo_app)
       = js ''Error al editar imagen: 503 Service Unavailable''
   \<and> step (handleEdit demo_browser failing_services demo_app) = result"
proof -
  have 1: "editPrompt demo_app \<noteq> []" and 2: "generations demo_app \<noteq> []"
    by (simp_all add: demo_app_def js_def)
  have 3: "fst (editedImage demo_browser failing_services
                  (imageUrl (store demo_app (last (generations demo_app))))
                  (editPrompt demo_app) (outside demo_app))
             = Inl (Error (js ''503 Service Unavailable''))"
    by (simp add: editedImage_def editAdImage_def getAiClient_def truthy_def Let_def
          demo_defs failing_services_def js_def)
  have g: "generations demo_app = [0, 1]" and l: "localStorage (outside demo_app) = Map.empty"
    by (simp_all add: demo_defs)
  have m: "js ''Error al editar imagen: ''
             @ errorMessage demo_browser (Error (js ''503 Service Unavailable''))
           = js ''Error al editar imagen: 503 Service Unavailable''"
    by (simp add: errorMessage_def js_def)
  show ?thesis
    using handleEdit_failure [OF 1 2 3] by (simp only: g l m simp_thms)
qed

text \<open>
  The generation lists the handlers build never hold one object twice: every new
  generation gets a reference that was not in use.
\<close>

lemma callGenerateAPI_frame:
  assumes "callGenerateAPI br svc render app = (res, app')"
  shows "generations app' = generations app"
    and "res = None \<Longrightarrow> next_ref app' = next_ref app"
    and "\<And>r. res = Some r \<Longrightarrow> r = next_ref app \<and> next_ref app' = next_ref app + 1"
  using assms
  by (auto simp: callGenerateAPI_def Let_def split: sum.splits prod.splits)

lemma fresh_refs_handleGenerate: "fresh_refs app \<Longrightarrow> fresh_refs (handleGenerate br svc app)"
proof -
  assume a: "fresh_refs app"
  obtain res app3 where c: "callGenerateAPI br svc app
      (app\<lparr>step := processing, currentProjectId := Some (toISOString br)\<rparr>) = (res, app3)"
    by (metis prod.exhaust)
  show ?thesis
    using a callGenerateAPI_frame[OF c]
    by (cases res) (auto simp: handleGenerate_def Let_def c fresh_refs_def saveCurrentProject_frame)
qed

lemma fresh_refs_handleGenerateAnother:
  "fresh_refs app \<Longrightarrow> fresh_refs (handleGenerateAnother br svc app)"
proof -
  assume a: "fresh_refs app"
  obtain res app2 where c: "callGenerateAPI br svc app (app\<lparr>step := processing\<rparr>) = (res, app2)"
    by (metis prod.exhaust)
  show ?thesis
    using a callGenerateAPI_frame[OF c]
    by (cases res) (auto simp: handleGenerateAnother_def Let_def c fresh_refs_def saveCurrentProject_frame)
qed

lemma fresh_refs_handleEdit: "fresh_refs app \<Longrightarrow> fresh_refs (handleEdit br svc app)"
  by (auto simp: handleEdit_def Let_def fresh_refs_def saveCurrentProject_frame
           split: prod.splits sum.splits)

lemma fresh_refs_handleDeleteProject:
  "fresh_refs app \<Longrightarrow> fresh_refs (handleDeleteProject br projectId app)"
  by (auto simp: handleDeleteProject_def Let_def fresh_refs_def setItem_def
           split: prod.splits option.splits)

lemma reachable_fresh_refs: "reachable app \<Longrightarrow> fresh_refs app"
proof (induction rule: reachable.induct)
  case (start app)
  then show ?case by (simp add: fresh_refs_def)
next
  case (reset app)
  then show ?case by (simp add: fresh_refs_def handleReset_def)
next
  case (input app files previews p s e h)
  then show ?case by (simp add: fresh_refs_def)
qed (simp_all add: fresh_refs_handleGenerate fresh_refs_handleGenerateAnother
       fresh_refs_handleEdit fresh_refs_handleDeleteProject)

lemma reachable_distinct: "reachable app \<Longrightarrow> distinct (generations app)"
  using reachable_fresh_refs by (simp add: fresh_refs_def)

text \<open>
  Claim C3. A successful edit of a project with a non-empty generation list (and an edit
  instruction, without which the handler does nothing) keeps the list of generations,
  gives the last one the new image URL and leaves its description, leaves every earlier
  generation as it was, and saves the project again: its entry, with this generation list,
  is at the head of the saved projects, and the list read through the updated store is what
  local storage receives when the write is accepted.
\<close>

theorem handleEdit_success:
  assumes "editPrompt app \<noteq> []" and "generations app = gs" and "gs \<noteq> []"
    and "currentProjectId app = Some pid" and "pid \<noteq> []"
    and "distinct gs"
    and "editedImage br svc (imageUrl (store app (last gs))) (editPrompt app) (outside app)
           = (Inr newImageUrl, eff)"
  shows "generations (handleEdit br svc app) = gs
       \<and> imageUrl (store (handleEdit br svc app) (last gs)) = newImageUrl
       \<and> description (store (handleEdit br svc app) (last gs)) = description (store app (last gs))
       \<and> map (store (handleEdit br svc app)) (butlast gs) = map (store app) (butlast gs)
       \<and> savedProjects (handleEdit br svc app) =
           \<lparr>id_sp = pid, generations_sp = gs, timestamp = toLocaleString br,
            previewImage = imageUrl (store (handleEdit br svc app) (hd gs))\<rparr>
           # filter (\<lambda>p. id_sp p \<noteq> pid) (savedProjects app)
       \<and> (setItem_throws br (js ''savedProjects'')
             (stringify (store (handleEdit br svc app)) (savedProjects (handleEdit br svc app))) = None
           \<longrightarrow> localStorage (outside (handleEdit br svc app)) (js ''savedProjects'')
                 = Some (stringify (store (handleEdit br svc app))
                           (savedProjects (handleEdit br svc app))))
       \<and> step (handleEdit br svc app) = result"
proof -
  let ?h = "(store app)(last gs := (store app (last gs))\<lparr>imageUrl := newImageUrl\<rparr>)"
  let ?app3 = "app\<lparr>step := editing, error := [], outside := eff, store := ?h\<rparr>"
  let ?app4 = "saveCurrentProject br (Some pid) (savedProjects app) gs ?app3"
  have he: "handleEdit br svc app = ?app4\<lparr>editPrompt := [], step := result\<rparr>"
    using handleEdit_Inr[of app br svc newImageUrl eff] assms by simp
  have st: "store (handleEdit br svc app) = ?h"
    by (simp add: he saveCurrentProject_store)
  have gen: "generations (handleEdit br svc app) = gs"
    using assms(2) by (simp add: he saveCurrentProject_def Let_def setItem_def
                            split: option.splits prod.splits)
  have sp: "savedProjects (handleEdit br svc app) =
           \<lparr>id_sp = pid, generations_sp = gs, timestamp = toLocaleString br,
            previewImage = imageUrl (?h (hd gs))\<rparr>
           # filter (\<lambda>p. id_sp p \<noteq> pid) (savedProjects app)"
    by (simp add: he saveCurrentProject_savedProjects[OF assms(3,5)])
  have earlier: "map ?h (butlast gs) = map (store app) (butlast gs)"
  proof -
    have "distinct (butlast gs @ [last gs])" using assms(3,6) by simp
    then have "last gs \<notin> set (butlast gs)" by simp
    then show ?thesis by auto
  qed
  have ls: "setItem_throws br (js ''savedProjects'') (stringify ?h (savedProjects ?app4)) = None
            \<Longrightarrow> localStorage (outside ?app4) (js ''savedProjects'')
                 = Some (stringify ?h (savedProjects ?app4))"
    using saveCurrentProject_localStorage[OF assms(3,5), of br ?app3 "savedProjects app"]
    by simp
  have sp4: "savedProjects (handleEdit br svc app) = savedProjects ?app4" by (simp add: he)
  have out4: "outside (handleEdit br svc app) = outside ?app4" by (simp add: he)
  show ?thesis
  proof (intro conjI)
    show "generations (handleEdit br svc app) = gs" by (rule gen)
    show "imageUrl (store (handleEdit br svc app) (last gs)) = newImageUrl"
      by (simp add: st)
    show "description (store (handleEdit br svc app) (last gs)) = description (store app (last gs))"
      by (simp add: st)
    show "map (store (handleEdit br svc app)) (butlast gs) = map (store app) (butlast gs)"
      by (simp only: st earlier)
    show "savedProjects (handleEdit br svc app) =
           \<lparr>id_sp = pid, generations_sp = gs, timestamp = toLocaleString br,
            previewImage = imageUrl (store (handleEdit br svc app) (hd gs))\<rparr>
           # filter (\<lambda>p. id_sp p \<noteq> pid) (savedProjects app)"
      by (simp only: st sp)
    show "setItem_throws br (js ''savedProjects'')
             (stringify (store (handleEdit br svc app)) (savedProjects (handleEdit br svc app))) = None
           \<longrightarrow> localStorage (outside (handleEdit br svc app)) (js ''savedProjects'')
                 = Some (stringify (store (handleEdit br svc app))
                           (savedProjects (handleEdit br svc app)))"
      unfolding st sp4 out4 using ls by blast
    show "step (handleEdit br svc app) = result" by (simp add: he)
  qed
qed

theorem handleEdit_success_witness:
  "generations (handleEdit demo_browser edited_services demo_app) = [0, 1]
   \<and> store (handleEdit demo_browser edited_services demo_app) 1
       = \<lparr>imageUrl = js ''data:image/png;base64,WFla'', description = js ''Dos''\<rparr>
   \<and> store (handleEdit demo_browser edited_services demo_app) 0 = store demo_app 0
   \<and> savedProjects (handleEdit demo_browser edited_services demo_app)
       = [\<lparr>id_sp = js ''p2'', generations_sp = [0, 1], timestamp = js ''3/11/2026, 10:15:00'',
           previewImage = js ''data:image/jpeg;base64,AAAA''\<rparr>,
          demo_project (js ''p1'') [2], demo_project (js ''p3'') [3]]
   \<and> localStorage (outside (handleEdit demo_browser edited_services demo_app))
         (js ''savedProjects'')
       = Some (stringify (store (handleEdit demo_browser edited_services demo_app))
                 (savedProjects (handleEdit demo_browser edited_services demo_app)))
   \<and> step (handleEdit demo_browser edited_services demo_app) = result"
proof -
  let ?app' = "handleEdit demo_browser edited_services demo_app"
  have 1: "editPrompt demo_app \<noteq> []" and 2: "generations demo_app = [0, 1]"
    and 3: "[0, 1] \<noteq> ([] :: ref list)" and 4: "currentProjectId demo_app = Some (js ''p2'')"
    and 5: "js ''p2'' \<noteq> []" and 6: "distinct ([0, 1] :: ref list)"
    by (simp_all add: demo_app_def js_def)
  have 7: "editedImage demo_browser edited_services (imageUrl (store demo_app (last [0, 1])))
             (editPrompt demo_app) (outside demo_app)
           = (Inr (js ''data:image/png;base64,WFla''),
              no_effects\<lparr>requests :=
                [GenerateContent (editRequest (js ''QUJD'') (js ''image/jpeg'') (js ''hazlo azul''))]\<rparr>)"
    by (simp add: editedImage_def editAdImage_def getAiClient_def truthy_def Let_def
          demo_defs edited_services_def canned_services_def js_def)
  note t = handleEdit_success [OF 1 2 3 4 5 6 7]
  have ok: "\<And>v. setItem_throws demo_browser (js ''savedProjects'') v = None"
    by (simp add: demo_browser_def)
  have b: "toLocaleString demo_browser = js ''3/11/2026, 10:15:00''"
    by (simp add: demo_browser_def)
  have f: "filter (\<lambda>p. id_sp p \<noteq> js ''p2'') (savedProjects demo_app)
              = [demo_project (js ''p1'') [2], demo_project (js ''p3'') [3]]"
    by (simp add: demo_defs js_def)
  from t have "imageUrl (store ?app' 1) = js ''data:image/png;base64,WFla''
               \<and> description (store ?app' 1) = js ''Dos''"
    by (simp add: demo_app_def)
  then have s1: "store ?app' 1 = \<lparr>imageUrl = js ''data:image/png;base64,WFla'', description = js ''Dos''\<rparr>"
    by (cases "store ?app' 1") simp
  from t have s0: "store ?app' 0 = store demo_app 0" by simp
  have u: "imageUrl (store ?app' (hd [0, 1])) = js ''data:image/jpeg;base64,AAAA''"
    using s0 by (simp add: demo_app_def)
  show ?thesis
    using t s1 s0 by (simp only: ok b f u simp_thms)
qed

end
